theory Spec2Isabelle
  imports Main
begin

section \<open>The timer scheduler of Valetudo (backend/lib/scheduler/Scheduler.js)\<close>

text \<open>
  A shallow embedding of the class \<open>Scheduler\<close>: its tick handler \<open>evaluateTimers\<close> and
  the pipeline \<open>executeTimer\<close>.

  Numbers are JavaScript numbers holding integral millisecond instants; they are modelled
  as \<open>int\<close>. The getters of \<open>Date\<close> are the formulas of ECMAScript for an integral time
  value (floor division, non-negative remainder), which is what \<open>div\<close> and \<open>mod\<close> on
  \<open>int\<close> compute.

  The collaborators that the scheduler only calls are parameters of the model:
  \<^item> the tag constants \<open>ValetudoTimer.ACTION_TYPE\<close> and \<open>ValetudoTimer.PRE_ACTION_TYPE\<close>
    (a record of strings);
  \<^item> the asynchronous \<open>run()\<close> of an action or pre-action object (a function from the
    handler and the device state to an optional failure and the new device state).

  An \<open>async\<close> function runs synchronously up to its first \<open>await\<close> and is suspended
  there; the rest runs later, when the event loop resumes it.
  \<^item> \<open>executeTimer\<close> is the whole body of the function, from the call to the settlement of
    its promise (\<open>Inl e\<close>: rejected with \<open>e\<close>, \<open>Inr ()\<close>: fulfilled), as it runs when
    nothing else is interleaved with it.
  \<^item> \<open>evaluateTimers\<close> does not await that promise. \<open>dispatchTimer\<close> runs the body up to
    its first \<open>await\<close> only and leaves the suspended pipeline in \<open>pending\<close>; a tick is
    synchronous, so nothing is resumed while it runs.
  \<^item> \<open>resume\<close> is one step of the event loop on one suspended pipeline, and \<open>settle\<close> runs
    the event loop until nothing is pending. The order in which pipelines are resumed
    depends on when the device answers: it is a parameter.
  A device operation is \<open>run\<close> applied where the operation is called: its effect on the
  device state happens there, and its outcome is delivered when the pipeline is resumed.
\<close>

subsection \<open>Data\<close>

definition MS_PER_MIN :: int where
  "MS_PER_MIN = 60 * 1000"

text \<open>\<open>ValetudoTimer.ACTION_TYPE\<close> and \<open>ValetudoTimer.PRE_ACTION_TYPE\<close>: the module that
  defines them is not part of the sources at hand, so the constants are a parameter.\<close>

record ValetudoTimer_consts =
  FULL_CLEANUP :: string
  SEGMENT_CLEANUP :: string
  FAN_SPEED_CONTROL :: string
  WATER_USAGE_CONTROL :: string
  OPERATION_MODE_CONTROL :: string

text \<open>A field that may be \<open>undefined\<close> has an option type, \<open>None\<close> being \<open>undefined\<close>.\<close>

record action_params =
  segment_ids :: "string list option"
  iterations :: "int option"
  custom_order :: "bool option"

record timer_action =
  action_type :: "string option"
  action_params :: "action_params option"

record pre_action_params =
  pre_value :: "string option"

record timer_pre_action =
  pre_type :: "string option"
  pre_params :: "pre_action_params option"

text \<open>A timer definition. \<open>pre_actions\<close> is \<open>None\<close> when the field is not an array
  (\<open>Array.isArray\<close> is false), \<open>action\<close> is \<open>None\<close> when the field is absent.\<close>

record ValetudoTimer =
  timer_id :: string
  enabled :: bool
  dow :: "int list"
  hour :: int
  minute :: int
  action :: "timer_action option"
  pre_actions :: "timer_pre_action list option"

text \<open>The objects that \<open>executeTimer\<close> constructs; \<open>run()\<close> of each is one device
  operation.\<close>

datatype timer_handler =
    ValetudoFullCleanupTimerAction
  | ValetudoSegmentCleanupTimerAction "string list option" "int option" "bool option"
  | ValetudoFanSpeedControlTimerPreAction "string option"
  | ValetudoWaterUsageControlTimerPreAction "string option"
  | ValetudoOperationModeControlTimerPreAction "string option"

datatype error =
    TypeError string
  | OperationError string

text \<open>What can be observed of a run: the calls of the \<open>Logger\<close> and the device operations
  that were started, in the order in which they happen.\<close>

datatype event =
    LoggerInfo string
  | LoggerWarn string string
  | LoggerError string error
  | Run timer_handler

text \<open>A pipeline that the event loop has yet to resume. \<open>Awaiting tid r hs\<close>: the pipeline
  of timer \<open>tid\<close> is suspended at an \<open>await\<close>; the operation it awaits settles with \<open>r\<close>
  (\<open>None\<close>: it succeeds), and \<open>hs\<close> are the operations it has yet to start.
  \<open>Rejected tid e\<close>: the promise of \<open>executeTimer\<close> was rejected with \<open>e\<close> before the first
  \<open>await\<close>, and its \<open>catch\<close> callback has not run yet.\<close>

datatype task =
    Awaiting string "error option" "timer_handler list"
  | Rejected string error

record 'd world =
  device :: 'd
  events :: "event list"
  pending :: "task list"

type_synonym 'd run_fn = "timer_handler \<Rightarrow> 'd \<Rightarrow> error option \<times> 'd"

datatype NTPClientState =
    ValetudoNTPClientSyncedState
  | ValetudoNTPClientDisabledState
  | OtherNTPClientState

text \<open>\<open>config.get("embedded")\<close> is \<open>Some b\<close> for the boolean \<open>b\<close> and \<open>None\<close> for any
  other value; \<open>config.get("timers")\<close> is an object, its properties in their order.\<close>

record Configuration =
  embedded :: "bool option"
  timers :: "(string \<times> ValetudoTimer) list"

record Scheduler =
  nextScheduledCheckTime :: "int option"

subsection \<open>Date\<close>

definition getUTCDay :: "int \<Rightarrow> int" where
  "getUTCDay t = (t div 86400000 + 4) mod 7"

definition getUTCHours :: "int \<Rightarrow> int" where
  "getUTCHours t = (t div 3600000) mod 24"

definition getUTCMinutes :: "int \<Rightarrow> int" where
  "getUTCMinutes t = (t div 60000) mod 60"

record checkTime =
  ct_dow :: int
  ct_hour :: int
  ct_minute :: int

definition checkTime_of :: "int \<Rightarrow> checkTime" where
  "checkTime_of t =
     \<lparr>ct_dow = getUTCDay t, ct_hour = getUTCHours t, ct_minute = getUTCMinutes t\<rparr>"

subsection \<open>executeTimer\<close>

definition log_event :: "event \<Rightarrow> 'd world \<Rightarrow> 'd world" where
  "log_event e w = w\<lparr>events := events w @ [e]\<rparr>"

text \<open>String conversion of a tag in a concatenation.\<close>

definition tag_string :: "string option \<Rightarrow> string" where
  "tag_string t = (case t of None \<Rightarrow> ''undefined'' | Some s \<Rightarrow> s)"

text \<open>The first \<open>switch\<close>, on \<open>timerDefinition.action?.type\<close>: \<open>None\<close> when \<open>action\<close>
  stays \<open>undefined\<close>.\<close>

definition resolveAction :: "ValetudoTimer_consts \<Rightarrow> timer_action option \<Rightarrow> timer_handler option" where
  "resolveAction C a =
     (let ty = (case a of None \<Rightarrow> None | Some x \<Rightarrow> action_type x) in
      if ty = Some (FULL_CLEANUP C) then Some ValetudoFullCleanupTimerAction
      else if ty = Some (SEGMENT_CLEANUP C) then
        (let ps = (case a of None \<Rightarrow> None | Some x \<Rightarrow> action_params x) in
         Some (ValetudoSegmentCleanupTimerAction
           (case ps of None \<Rightarrow> None | Some p \<Rightarrow> segment_ids p)
           (case ps of None \<Rightarrow> None | Some p \<Rightarrow> iterations p)
           (case ps of None \<Rightarrow> None | Some p \<Rightarrow> custom_order p)))
      else None)"

text \<open>\<open>timerPreActionDefinition.params.value\<close>: reading \<open>value\<close> of an absent \<open>params\<close>
  throws.\<close>

definition params_value :: "timer_pre_action \<Rightarrow> error + string option" where
  "params_value d =
     (case pre_params d of
        None \<Rightarrow> Inl (TypeError ''Cannot read properties of undefined (reading value)'')
      | Some p \<Rightarrow> Inr (pre_value p))"

text \<open>The second \<open>switch\<close>, on \<open>timerPreActionDefinition.type\<close>: \<open>Inr None\<close> when
  \<open>preAction\<close> stays \<open>undefined\<close>.\<close>

definition resolvePreAction :: "ValetudoTimer_consts \<Rightarrow> timer_pre_action \<Rightarrow> error + timer_handler option" where
  "resolvePreAction C d =
     (if pre_type d = Some (FAN_SPEED_CONTROL C) then
        (case params_value d of Inl e \<Rightarrow> Inl e
         | Inr v \<Rightarrow> Inr (Some (ValetudoFanSpeedControlTimerPreAction v)))
      else if pre_type d = Some (WATER_USAGE_CONTROL C) then
        (case params_value d of Inl e \<Rightarrow> Inl e
         | Inr v \<Rightarrow> Inr (Some (ValetudoWaterUsageControlTimerPreAction v)))
      else if pre_type d = Some (OPERATION_MODE_CONTROL C) then
        (case params_value d of Inl e \<Rightarrow> Inl e
         | Inr v \<Rightarrow> Inr (Some (ValetudoOperationModeControlTimerPreAction v)))
      else Inr None)"

text \<open>The first loop over \<open>timerDefinition.pre_actions\<close>, which fills \<open>preActions\<close>.
  \<open>Inl e\<close>: an exception; \<open>Inr None\<close>: the \<open>return\<close> after the warning;
  \<open>Inr (Some hs)\<close>: the loop ends with \<open>preActions = hs\<close>.\<close>

fun collectPreActions ::
  "ValetudoTimer_consts \<Rightarrow> string \<Rightarrow> timer_pre_action list \<Rightarrow> timer_handler list \<Rightarrow> 'd world
    \<Rightarrow> (error + timer_handler list option) \<times> 'd world" where
  "collectPreActions C tid [] preActions w = (Inr (Some preActions), w)"
| "collectPreActions C tid (d # ds) preActions w =
     (case resolvePreAction C d of
        Inl e \<Rightarrow> (Inl e, w)
      | Inr (Some preAction) \<Rightarrow> collectPreActions C tid ds (preActions @ [preAction]) w
      | Inr None \<Rightarrow>
          (Inr None,
           log_event (LoggerWarn (''Error while executing timer '' @ tid)
             (''Couldn't find timer pre_action for type: '' @ tag_string (pre_type d))) w))"

text \<open>\<open>await h.run()\<close>: the operation is started, and its outcome and the device state
  it leaves are those of \<open>run\<close>.\<close>

definition await_run :: "'d run_fn \<Rightarrow> timer_handler \<Rightarrow> 'd world \<Rightarrow> (error + unit) \<times> 'd world" where
  "await_run run h w =
     (case run h (device w) of
        (Some e, d') \<Rightarrow> (Inl e, w\<lparr>device := d', events := events w @ [Run h]\<rparr>)
      | (None, d') \<Rightarrow> (Inr (), w\<lparr>device := d', events := events w @ [Run h]\<rparr>))"

text \<open>The second loop: \<open>for (const preAction of preActions) await preAction.run()\<close>.\<close>

fun runPreActions :: "'d run_fn \<Rightarrow> timer_handler list \<Rightarrow> 'd world \<Rightarrow> (error + unit) \<times> 'd world" where
  "runPreActions run [] w = (Inr (), w)"
| "runPreActions run (h # hs) w =
     (case await_run run h w of
        (Inl e, w') \<Rightarrow> (Inl e, w')
      | (Inr u, w') \<Rightarrow> runPreActions run hs w')"

definition executeTimer ::
  "'d run_fn \<Rightarrow> ValetudoTimer_consts \<Rightarrow> ValetudoTimer \<Rightarrow> 'd world \<Rightarrow> (error + unit) \<times> 'd world" where
  "executeTimer run C timerDefinition w =
     (case resolveAction C (action timerDefinition) of
        None \<Rightarrow>
          (case action timerDefinition of
             None \<Rightarrow> (Inl (TypeError ''Cannot read properties of undefined (reading type)''), w)
           | Some a \<Rightarrow>
               (Inr (),
                log_event (LoggerWarn (''Error while executing timer '' @ timer_id timerDefinition)
                  (''Couldn't find timer action for type: '' @ tag_string (action_type a))) w))
      | Some act \<Rightarrow>
          (case (case pre_actions timerDefinition of
                   None \<Rightarrow> (Inr (Some []), w)
                 | Some ds \<Rightarrow> collectPreActions C (timer_id timerDefinition) ds [] w) of
             (Inl e, w1) \<Rightarrow> (Inl e, w1)
           | (Inr None, w1) \<Rightarrow> (Inr (), w1)
           | (Inr (Some preActions), w1) \<Rightarrow>
               (case runPreActions run preActions w1 of
                  (Inl e, w2) \<Rightarrow> (Inl e, w2)
                | (Inr u, w2) \<Rightarrow> await_run run act w2)))"

subsection \<open>evaluateTimers\<close>

text \<open>The condition of the \<open>if\<close> in the callback of \<open>forEach\<close>.\<close>

definition timerMatches :: "ValetudoTimer \<Rightarrow> checkTime \<Rightarrow> bool" where
  "timerMatches timerDefinition ct \<longleftrightarrow>
     enabled timerDefinition = True \<and>
     ct_dow ct \<in> set (dow timerDefinition) \<and>
     hour timerDefinition = ct_hour ct \<and>
     minute timerDefinition = ct_minute ct"

text \<open>The call \<open>h.run()\<close> followed by the \<open>await\<close> at which the pipeline is suspended: the
  operation is started, and the pipeline waits for its outcome with \<open>rest\<close> still to do.\<close>

definition suspend_at :: "'d run_fn \<Rightarrow> string \<Rightarrow> timer_handler \<Rightarrow> timer_handler list \<Rightarrow> 'd world \<Rightarrow> 'd world" where
  "suspend_at run tid h rest w =
     (case run h (device w) of
        (r, d') \<Rightarrow>
          w\<lparr>device := d', events := events w @ [Run h],
            pending := pending w @ [Awaiting tid r rest]\<rparr>)"

text \<open>The call \<open>this.executeTimer(timerDefinition).catch(\<dots>)\<close> as the callback of
  \<open>forEach\<close> sees it: the body of \<open>executeTimer\<close> up to its first \<open>await\<close>. The two
  switches and the first loop run at once. An exception there rejects the promise, and the
  \<open>catch\<close> callback is left to the event loop; a \<open>return\<close> fulfils it. Otherwise the
  first operation (the first pre-action, or the action when there is none) is started and
  the pipeline is suspended.\<close>

definition call_executeTimer ::
  "'d run_fn \<Rightarrow> ValetudoTimer_consts \<Rightarrow> ValetudoTimer \<Rightarrow> 'd world \<Rightarrow> 'd world" where
  "call_executeTimer run C timerDefinition w =
     (case resolveAction C (action timerDefinition) of
        None \<Rightarrow>
          (case action timerDefinition of
             None \<Rightarrow>
               w\<lparr>pending := pending w @
                 [Rejected (timer_id timerDefinition)
                    (TypeError ''Cannot read properties of undefined (reading type)'')]\<rparr>
           | Some a \<Rightarrow>
               log_event (LoggerWarn (''Error while executing timer '' @ timer_id timerDefinition)
                 (''Couldn't find timer action for type: '' @ tag_string (action_type a))) w)
      | Some act \<Rightarrow>
          (case (case pre_actions timerDefinition of
                   None \<Rightarrow> (Inr (Some []), w)
                 | Some ds \<Rightarrow> collectPreActions C (timer_id timerDefinition) ds [] w) of
             (Inl e, w1) \<Rightarrow> w1\<lparr>pending := pending w1 @ [Rejected (timer_id timerDefinition) e]\<rparr>
           | (Inr None, w1) \<Rightarrow> w1
           | (Inr (Some preActions), w1) \<Rightarrow>
               (case preActions of
                  [] \<Rightarrow> suspend_at run (timer_id timerDefinition) act [] w1
                | preAction # others \<Rightarrow>
                    suspend_at run (timer_id timerDefinition) preAction (others @ [act]) w1)))"

text \<open>The body of that \<open>if\<close>: the log entry and the call, which is not awaited.\<close>

definition dispatchTimer :: "'d run_fn \<Rightarrow> ValetudoTimer_consts \<Rightarrow> ValetudoTimer \<Rightarrow> 'd world \<Rightarrow> 'd world" where
  "dispatchTimer run C timerDefinition w =
     call_executeTimer run C timerDefinition
       (log_event (LoggerInfo (''Executing timer '' @ timer_id timerDefinition)) w)"

definition forEachCallback ::
  "'d run_fn \<Rightarrow> ValetudoTimer_consts \<Rightarrow> checkTime \<Rightarrow> ValetudoTimer \<Rightarrow> 'd world \<Rightarrow> 'd world" where
  "forEachCallback run C ct timerDefinition w =
     (if timerMatches timerDefinition ct then dispatchTimer run C timerDefinition w else w)"

definition Object_values :: "(string \<times> 'v) list \<Rightarrow> 'v list" where
  "Object_values obj = map snd obj"

text \<open>One iteration of the \<open>while\<close> loop, without the advance of the watermark.\<close>

definition evaluateMinute ::
  "'d run_fn \<Rightarrow> ValetudoTimer_consts \<Rightarrow> (string \<times> ValetudoTimer) list \<Rightarrow> int \<Rightarrow> 'd world \<Rightarrow> 'd world" where
  "evaluateMinute run C tms t w =
     fold (forEachCallback run C (checkTime_of t)) (Object_values tms) w"

text \<open>The \<open>while\<close> loop; its first component is \<open>this.nextScheduledCheckTime\<close>.\<close>

function drainLoop ::
  "'d run_fn \<Rightarrow> ValetudoTimer_consts \<Rightarrow> (string \<times> ValetudoTimer) list \<Rightarrow> int \<Rightarrow> int \<Rightarrow> 'd world
    \<Rightarrow> int \<times> 'd world" where
  "drainLoop run C tms nowTime nsct w =
     (if nsct < nowTime
      then drainLoop run C tms nowTime (nsct + MS_PER_MIN) (evaluateMinute run C tms nsct w)
      else (nsct, w))"
  by pat_completeness auto
termination
  by (relation "measure (\<lambda>(run, C, tms, nowTime, nsct, w). nat (nowTime - nsct))")
     (auto simp: MS_PER_MIN_def)

declare drainLoop.simps [simp del]

text \<open>The \<open>if\<close> that precedes the loop: the watermark with which the loop starts.\<close>

definition rederive :: "int option \<Rightarrow> int \<Rightarrow> int" where
  "rederive nsct nowTime =
     (case nsct of
        None \<Rightarrow> nowTime - MS_PER_MIN
      | Some n \<Rightarrow>
          if n > nowTime \<or> n < nowTime - 60 * MS_PER_MIN then nowTime - MS_PER_MIN else n)"

definition evaluateTimers ::
  "'d run_fn \<Rightarrow> ValetudoTimer_consts \<Rightarrow> NTPClientState \<Rightarrow> Configuration \<Rightarrow> int
    \<Rightarrow> Scheduler \<times> 'd world \<Rightarrow> Scheduler \<times> 'd world" where
  "evaluateTimers run C ntpState config nowTime sw =
     (case sw of (this, w) \<Rightarrow>
        if \<not> (ntpState = ValetudoNTPClientSyncedState \<or> ntpState = ValetudoNTPClientDisabledState)
           \<and> embedded config = Some True
        then (this, w)
        else
          (case drainLoop run C (timers config) nowTime
                  (rederive (nextScheduledCheckTime this) nowTime) w of
             (nsct, w') \<Rightarrow> (this\<lparr>nextScheduledCheckTime := Some nsct\<rparr>, w')))"

subsection \<open>The event loop\<close>







subsection \<open>The minute instants of a tick, in the words of the specification\<close>

text \<open>The specification speaks of the instants \<open>wm\<close>, \<open>wm + 60000\<close>, \<open>\<dots>\<close> below \<open>now\<close>
  that one tick evaluates. \<open>boundaryCount\<close> is their number, the quotient of \<open>now - wm\<close> by
  a minute, rounded up; \<open>minuteInstants\<close> lists them in increasing order. The loop of the
  source is compared with them below.\<close>

definition boundaryCount :: "int \<Rightarrow> int \<Rightarrow> nat" where
  "boundaryCount wm nowTime = nat ((nowTime - wm + (MS_PER_MIN - 1)) div MS_PER_MIN)"

definition minuteInstants :: "int \<Rightarrow> int \<Rightarrow> int list" where
  "minuteInstants wm nowTime = map (\<lambda>i. wm + MS_PER_MIN * int i) [0..<boundaryCount wm nowTime]"

subsection \<open>Example inputs\<close>

text \<open>The tags as Valetudo writes them, two devices whose state counts the operations
  started (one on which setting the fan speed fails), and timers for Monday 5 January
  1970, 14:30 UTC, which is the instant \<open>397800000\<close>.\<close>

definition valetudoConsts :: ValetudoTimer_consts where
  "valetudoConsts =
     \<lparr>FULL_CLEANUP = ''full_cleanup'', SEGMENT_CLEANUP = ''segment_cleanup'',
      FAN_SPEED_CONTROL = ''fan_speed_control'', WATER_USAGE_CONTROL = ''water_usage_control'',
      OPERATION_MODE_CONTROL = ''operation_mode_control''\<rparr>"

definition countingRun :: "nat run_fn" where
  "countingRun h d = (None, Suc d)"

definition fanFailingRun :: "nat run_fn" where
  "fanFailingRun h d =
     (case h of
        ValetudoFanSpeedControlTimerPreAction v \<Rightarrow> (Some (OperationError ''fan speed''), Suc d)
      | _ \<Rightarrow> (None, Suc d))"

definition world0 :: "nat world" where
  "world0 = \<lparr>device = 0, events = [], pending = []\<rparr>"

definition fullCleanup :: timer_action where
  "fullCleanup = \<lparr>action_type = Some ''full_cleanup'', action_params = None\<rparr>"

definition fanMax :: timer_pre_action where
  "fanMax = \<lparr>pre_type = Some ''fan_speed_control'', pre_params = Some \<lparr>pre_value = Some ''max''\<rparr>\<rparr>"

definition waterLow :: timer_pre_action where
  "waterLow = \<lparr>pre_type = Some ''water_usage_control'', pre_params = Some \<lparr>pre_value = Some ''low''\<rparr>\<rparr>"

definition bogusPre :: timer_pre_action where
  "bogusPre = \<lparr>pre_type = Some ''bogus'', pre_params = Some \<lparr>pre_value = Some ''x''\<rparr>\<rparr>"

definition timerT1 :: ValetudoTimer where
  "timerT1 =
     \<lparr>timer_id = ''t1'', enabled = True, dow = [1], hour = 14, minute = 30,
      action = Some fullCleanup, pre_actions = Some []\<rparr>"

definition timerT2 :: ValetudoTimer where
  "timerT2 =
     \<lparr>timer_id = ''t2'', enabled = True, dow = [1, 3], hour = 14, minute = 30,
      action = Some fullCleanup, pre_actions = Some [fanMax, waterLow]\<rparr>"

definition config0 :: Configuration where
  "config0 = \<lparr>embedded = Some True, timers = [(''t2'', timerT2), (''t1'', timerT1)]\<rparr>"


text \<open>A minute boundary: an instant that is a whole number of minutes.\<close>

definition minuteBoundary :: "int \<Rightarrow> bool" where
  "minuteBoundary t \<longleftrightarrow> t mod MS_PER_MIN = 0"

subsection \<open>Notions used to state the properties of a pipeline\<close>

text \<open>The device state that a sequence of operations leaves, each operation starting
  in the state its predecessor left.\<close>

definition deviceAfter :: "'d run_fn \<Rightarrow> timer_handler list \<Rightarrow> 'd \<Rightarrow> 'd" where
  "deviceAfter run ops d = fold (\<lambda>h d. snd (run h d)) ops d"

text \<open>All operations of a sequence succeed when run one after the other from \<open>d\<close>.\<close>

fun allSucceed :: "'d run_fn \<Rightarrow> timer_handler list \<Rightarrow> 'd \<Rightarrow> bool" where
  "allSucceed run [] d \<longleftrightarrow> True"
| "allSucceed run (h # hs) d \<longleftrightarrow> fst (run h d) = None \<and> allSucceed run hs (snd (run h d))"

fun isRun :: "event \<Rightarrow> bool" where
  "isRun (Run h) = True"
| "isRun e = False"

fun isLoggerInfo :: "event \<Rightarrow> bool" where
  "isLoggerInfo (LoggerInfo s) = True"
| "isLoggerInfo e = False"

fun isLoggerError :: "event \<Rightarrow> bool" where
  "isLoggerError (LoggerError s e) = True"
| "isLoggerError e = False"


section \<open>The drain loop\<close>

lemma boundaryCount_zero: "\<not> wm < nowTime \<Longrightarrow> boundaryCount wm nowTime = 0"
  by (simp add: boundaryCount_def MS_PER_MIN_def)

lemma boundaryCount_Suc:
  "wm < nowTime \<Longrightarrow> boundaryCount wm nowTime = Suc (boundaryCount (wm + MS_PER_MIN) nowTime)"
  unfolding boundaryCount_def MS_PER_MIN_def by (simp add: nat_add_distrib) 

lemma minuteInstants_Nil: "\<not> wm < nowTime \<Longrightarrow> minuteInstants wm nowTime = []"
  by (simp add: minuteInstants_def boundaryCount_zero)

lemma minuteInstants_Cons:
  "wm < nowTime \<Longrightarrow> minuteInstants wm nowTime = wm # minuteInstants (wm + MS_PER_MIN) nowTime"
  by (simp add: minuteInstants_def boundaryCount_Suc upt_conv_Cons map_Suc_upt [symmetric] algebra_simps del: upt_Suc)

lemma drainLoop_fold:
  "drainLoop run C tms nowTime nsct w =
     (nsct + MS_PER_MIN * int (boundaryCount nsct nowTime),
      fold (evaluateMinute run C tms) (minuteInstants nsct nowTime) w)"
proof (induction run C tms nowTime nsct w rule: drainLoop.induct)
  case (1 run C tms nowTime nsct w)
  show ?case
  proof (cases "nsct < nowTime")
    case True
    then show ?thesis
      using "1.IH" [OF True]
      by (subst drainLoop.simps) (simp add: minuteInstants_Cons boundaryCount_Suc algebra_simps)
  next
    case False
    then show ?thesis
      by (subst drainLoop.simps) (simp add: minuteInstants_Nil boundaryCount_zero)
  qed
qed




lemma less_boundaryCount_iff:
  "i < boundaryCount wm nowTime \<longleftrightarrow> wm + MS_PER_MIN * int i < nowTime"
proof -
  define x where "x = nowTime - wm + 59999"
  have "x = 60000 * (x div 60000) + x mod 60000"
    by simp
  moreover have "0 \<le> x mod 60000" "x mod 60000 < 60000"
    by simp_all
  ultimately have "int i < x div 60000 \<longleftrightarrow> 60000 * int i + 59999 < x"
    by linarith
  then show ?thesis
    unfolding boundaryCount_def MS_PER_MIN_def zless_nat_eq_int_zless x_def by auto
qed


lemma set_minuteInstants:
  "set (minuteInstants wm nowTime) =
     {t. wm \<le> t \<and> t < nowTime \<and> (t - wm) mod MS_PER_MIN = 0}"
proof (rule set_eqI, rule iffI)
  fix t
  assume "t \<in> set (minuteInstants wm nowTime)"
  then obtain i where "i < boundaryCount wm nowTime" and t: "t = wm + MS_PER_MIN * int i"
    by (auto simp: minuteInstants_def)
  then have "t < nowTime"
    by (simp add: less_boundaryCount_iff)
  moreover have "wm \<le> t" "(t - wm) mod MS_PER_MIN = 0"
    by (simp_all add: t MS_PER_MIN_def)
  ultimately show "t \<in> {t. wm \<le> t \<and> t < nowTime \<and> (t - wm) mod MS_PER_MIN = 0}"
    by simp
next
  fix t
  assume "t \<in> {t. wm \<le> t \<and> t < nowTime \<and> (t - wm) mod MS_PER_MIN = 0}"
  then have le: "wm \<le> t" and lt: "t < nowTime" and m: "(t - wm) mod MS_PER_MIN = 0"
    by simp_all
  from m obtain q where q: "t - wm = MS_PER_MIN * q"
    by (auto simp: mod_eq_0_iff_dvd)
  with le have "0 \<le> q"
    by (simp add: MS_PER_MIN_def)
  then have t: "t = wm + MS_PER_MIN * int (nat q)"
    using q by simp
  with lt have "nat q < boundaryCount wm nowTime"
    by (simp add: less_boundaryCount_iff)
  with t show "t \<in> set (minuteInstants wm nowTime)"
    unfolding minuteInstants_def by (metis (no_types, lifting) atLeast0LessThan image_eqI lessThan_iff set_map set_upt)
qed

lemma sorted_minuteInstants: "sorted_wrt (<) (minuteInstants wm nowTime)"
proof -
  have "sorted_wrt (\<lambda>i j. wm + MS_PER_MIN * int i < wm + MS_PER_MIN * int j) [0..<n]" for n
    by (rule sorted_wrt_mono_rel [OF _ sorted_wrt_upt]) (simp add: MS_PER_MIN_def)
  then show ?thesis
    by (simp add: minuteInstants_def sorted_wrt_map)
qed

lemma boundaryCount_between:
  assumes "wm + MS_PER_MIN * int k < nowTime" and "nowTime \<le> wm + MS_PER_MIN * (int k + 1)"
  shows "boundaryCount wm nowTime = k + 1"
proof -
  have "k < boundaryCount wm nowTime"
    using assms(1) by (simp add: less_boundaryCount_iff)
  moreover have "\<not> k + 1 < boundaryCount wm nowTime"
    using assms(2) by (simp add: less_boundaryCount_iff add.commute)
  ultimately show ?thesis
    by simp
qed

lemma rederive_range:
  "nowTime - 60 * MS_PER_MIN \<le> rederive nsct nowTime \<and> rederive nsct nowTime \<le> nowTime"
  by (simp add: rederive_def MS_PER_MIN_def split: option.splits)

lemma drained_range:
  assumes "wm \<le> nowTime"
  shows "nowTime \<le> wm + MS_PER_MIN * int (boundaryCount wm nowTime) \<and>
     wm + MS_PER_MIN * int (boundaryCount wm nowTime) < nowTime + MS_PER_MIN"
proof (cases "boundaryCount wm nowTime")
  case 0
  then have "\<not> wm + MS_PER_MIN * int 0 < nowTime"
    using less_boundaryCount_iff [of 0 wm nowTime] by simp
  with assms 0 show ?thesis
    by (simp add: MS_PER_MIN_def)
next
  case (Suc n)
  then have "wm + MS_PER_MIN * int n < nowTime"
    using less_boundaryCount_iff [of n wm nowTime] by simp
  moreover have "\<not> wm + MS_PER_MIN * int (Suc n) < nowTime"
    using less_boundaryCount_iff [of "Suc n" wm nowTime] Suc by simp
  ultimately show ?thesis
    using Suc by (simp add: MS_PER_MIN_def)
qed

lemma evaluateTimers_gate_open:
  assumes "ntpState = ValetudoNTPClientSyncedState \<or> ntpState = ValetudoNTPClientDisabledState
             \<or> embedded config \<noteq> Some True"
  shows "evaluateTimers run C ntpState config nowTime (this, w) =
     (this\<lparr>nextScheduledCheckTime :=
         Some (rederive (nextScheduledCheckTime this) nowTime
           + MS_PER_MIN * int (boundaryCount (rederive (nextScheduledCheckTime this) nowTime) nowTime))\<rparr>,
      fold (evaluateMinute run C (timers config))
        (minuteInstants (rederive (nextScheduledCheckTime this) nowTime) nowTime) w)"
  using assms by (auto simp: evaluateTimers_def drainLoop_fold)

lemma minuteInstants_example:
  "minuteInstants 397740500 397860500 = [397740500, 397800500]"
  by code_simp

lemma minuteInstants_late_example:
  "minuteInstants 397740500 397801500 = [397740500, 397800500]"
  by code_simp

lemma first_tick_example:
  "evaluateTimers countingRun valetudoConsts ValetudoNTPClientSyncedState config0 397740500
       (\<lparr>nextScheduledCheckTime = None\<rparr>, world0) =
     (\<lparr>nextScheduledCheckTime = Some 397740500\<rparr>, world0)"
  by code_simp

text \<open>The number of iterations when the time between two ticks is the nominal interval,
  \<open>k\<close> whole minutes and a remainder \<open>r\<close>: one more than \<open>k + 1\<close> as soon as \<open>r\<close> exceeds
  the distance of the watermark from the previous tick.\<close>

lemma boundaryCount_drift:
  assumes "prev \<le> wm" and "wm < prev + 60000"
    and "nowTime = prev + 60000 + 60000 * int k + r" and "0 \<le> r" and "r < 60000"
  shows "boundaryCount wm nowTime = (if r \<le> wm - prev then k + 1 else k + 2)"
proof (cases "r \<le> wm - prev")
  case True
  have "boundaryCount wm nowTime = k + 1"
    by (rule boundaryCount_between) (use assms True in \<open>simp_all add: MS_PER_MIN_def\<close>)
  with True show ?thesis
    by simp
next
  case False
  have "boundaryCount wm nowTime = (k + 1) + 1"
    by (rule boundaryCount_between) (use assms False in \<open>simp_all add: MS_PER_MIN_def\<close>)
  with False show ?thesis
    by simp
qed

text \<open>
  Claim C1 says that a tick which comes \<open>k\<close> extra minutes late processes exactly \<open>k + 1\<close>
  minute boundaries. The ticks of \<open>setInterval\<close> drift by less than a minute, and then one
  more instant is evaluated: after a first tick at \<open>397740500\<close>, which leaves the watermark
  at that very instant, a tick 61 seconds later (no whole extra minute) evaluates the two
  instants \<open>397740500\<close> and \<open>397800500\<close>. This is the case of the comment in the source
  (a tick at 10:59, the next at 12:00, the loop runs twice).
\<close>

theorem late_tick_two_iterations:
  "evaluateTimers countingRun valetudoConsts ValetudoNTPClientSyncedState config0 397740500
       (\<lparr>nextScheduledCheckTime = None\<rparr>, world0) =
     (\<lparr>nextScheduledCheckTime = Some 397740500\<rparr>, world0)
   \<and> (397801500::int) = 397740500 + 60000 + 60000 * int 0 + 1000
   \<and> (397740500::int) \<le> 397801500 \<and> (397801500::int) - 397740500 \<le> 3600000
   \<and> evaluateTimers countingRun valetudoConsts ValetudoNTPClientSyncedState config0 397801500
         (\<lparr>nextScheduledCheckTime = Some 397740500\<rparr>, world0) =
       (\<lparr>nextScheduledCheckTime = Some 397860500\<rparr>,
        fold (evaluateMinute countingRun valetudoConsts (timers config0)) [397740500, 397800500] world0)
   \<and> minuteInstants 397740500 397801500 = [397740500, 397800500]
   \<and> length (minuteInstants 397740500 397801500) \<noteq> 0 + 1"
proof -
  have g: "ValetudoNTPClientSyncedState = ValetudoNTPClientSyncedState
      \<or> ValetudoNTPClientSyncedState = ValetudoNTPClientDisabledState \<or> embedded config0 \<noteq> Some True"
    by simp
  have r: "rederive (Some 397740500) 397801500 = 397740500"
    by (simp add: rederive_def MS_PER_MIN_def)
  have n: "boundaryCount 397740500 397801500 = 2"
    by (simp add: boundaryCount_def MS_PER_MIN_def)
  have "evaluateTimers countingRun valetudoConsts ValetudoNTPClientSyncedState config0 397801500
         (\<lparr>nextScheduledCheckTime = Some 397740500\<rparr>, world0) =
       (\<lparr>nextScheduledCheckTime = Some 397860500\<rparr>,
        fold (evaluateMinute countingRun valetudoConsts (timers config0)) [397740500, 397800500] world0)"
    by (simp add: evaluateTimers_gate_open [OF g] r n minuteInstants_late_example MS_PER_MIN_def)
  with first_tick_example show ?thesis
    by (simp add: minuteInstants_late_example)
qed

text \<open>
  Claim C1, amended. On a tick that passes the gate with a valid watermark \<open>wm\<close> (set, not
  after \<open>now\<close>, at most 60 minutes before it), the loop applies the evaluation of one
  minute to exactly the instants \<open>wm\<close>, \<open>wm + 60000\<close>, \<open>\<dots>\<close> below \<open>now\<close>, once each and in
  strictly increasing order, and leaves the watermark advanced by 60000 for each of them.
  Their number is the quotient of \<open>now - wm\<close> by 60000, rounded up. When the state is the
  one left by a tick at \<open>prev\<close> (which leaves \<open>prev \<le> wm < prev + 60000\<close>) and \<open>now\<close> is the
  nominal interval, \<open>k\<close> whole minutes and a remainder \<open>r < 60000\<close> after \<open>prev\<close>, this is
  \<open>k + 1\<close> when \<open>r \<le> wm - prev\<close> (so when \<open>r = 0\<close>) and \<open>k + 2\<close> otherwise. When \<open>wm\<close> is not
  below \<open>now\<close> there is no iteration, and the state is unchanged.
\<close>

theorem drain_loop_minutes:
  assumes "nextScheduledCheckTime this = Some wm"
    and "wm \<le> nowTime" and "nowTime - wm \<le> 3600000"
    and "ntpState = ValetudoNTPClientSyncedState \<or> ntpState = ValetudoNTPClientDisabledState
           \<or> embedded config \<noteq> Some True"
  shows "evaluateTimers run C ntpState config nowTime (this, w) =
           (this\<lparr>nextScheduledCheckTime := Some (wm + 60000 * int (length (minuteInstants wm nowTime)))\<rparr>,
            fold (evaluateMinute run C (timers config)) (minuteInstants wm nowTime) w)
       \<and> minuteInstants wm nowTime = map (\<lambda>i. wm + 60000 * int i) [0..<length (minuteInstants wm nowTime)]
       \<and> set (minuteInstants wm nowTime) = {t. wm \<le> t \<and> t < nowTime \<and> (t - wm) mod 60000 = 0}
       \<and> sorted_wrt (<) (minuteInstants wm nowTime)
       \<and> distinct (minuteInstants wm nowTime)
       \<and> length (minuteInstants wm nowTime) = nat ((nowTime - wm + 59999) div 60000)
       \<and> (\<forall>prev k r. prev \<le> wm \<and> wm < prev + 60000
               \<and> nowTime = prev + 60000 + 60000 * int k + r \<and> 0 \<le> r \<and> r < 60000
             \<longrightarrow> length (minuteInstants wm nowTime) = (if r \<le> wm - prev then k + 1 else k + 2))
       \<and> (\<forall>this0 w0 ntp0 config0 prev k r.
             (ntp0 = ValetudoNTPClientSyncedState \<or> ntp0 = ValetudoNTPClientDisabledState
                \<or> embedded config0 \<noteq> Some True)
             \<and> evaluateTimers run C ntp0 config0 prev (this0, w0) = (this, w)
             \<and> nowTime = prev + 60000 + 60000 * int k + r \<and> 0 \<le> r \<and> r < 60000
             \<longrightarrow> prev \<le> wm \<and> wm < prev + 60000
               \<and> length (minuteInstants wm nowTime) = (if r \<le> wm - prev then k + 1 else k + 2))
       \<and> (\<not> wm < nowTime \<longrightarrow> minuteInstants wm nowTime = []
             \<and> evaluateTimers run C ntpState config nowTime (this, w) = (this, w))"
proof -
  have r: "rederive (nextScheduledCheckTime this) nowTime = wm"
    using assms(1-3) by (simp add: rederive_def MS_PER_MIN_def)
  have len: "length (minuteInstants wm nowTime) = boundaryCount wm nowTime"
    by (simp add: minuteInstants_def)
  have ev: "evaluateTimers run C ntpState config nowTime (this, w) =
           (this\<lparr>nextScheduledCheckTime := Some (wm + 60000 * int (length (minuteInstants wm nowTime)))\<rparr>,
            fold (evaluateMinute run C (timers config)) (minuteInstants wm nowTime) w)"
    using evaluateTimers_gate_open [OF assms(4), of run C nowTime this w]
    by (simp add: r len MS_PER_MIN_def)
  have shape: "minuteInstants wm nowTime = map (\<lambda>i. wm + 60000 * int i) [0..<length (minuteInstants wm nowTime)]"
    by (simp add: len) (simp add: minuteInstants_def MS_PER_MIN_def)
  have mem: "set (minuteInstants wm nowTime) = {t. wm \<le> t \<and> t < nowTime \<and> (t - wm) mod 60000 = 0}"
    using set_minuteInstants [of wm nowTime] by (simp add: MS_PER_MIN_def)
  have srt: "sorted_wrt (<) (minuteInstants wm nowTime)"
    by (rule sorted_minuteInstants)
  have dist: "distinct (minuteInstants wm nowTime)"
    using srt by (simp add: strict_sorted_iff)
  have num: "length (minuteInstants wm nowTime) = nat ((nowTime - wm + 59999) div 60000)"
    by (simp add: len boundaryCount_def MS_PER_MIN_def)
  have cnt: "length (minuteInstants wm nowTime) = (if r \<le> wm - prev then k + 1 else k + 2)"
    if "prev \<le> wm \<and> wm < prev + 60000
          \<and> nowTime = prev + 60000 + 60000 * int k + r \<and> 0 \<le> r \<and> r < 60000" for prev k r
    unfolding len using that by (intro boundaryCount_drift) simp_all
  have ticks: "prev \<le> wm \<and> wm < prev + 60000
        \<and> length (minuteInstants wm nowTime) = (if r \<le> wm - prev then k + 1 else k + 2)"
    if g: "ntp0 = ValetudoNTPClientSyncedState \<or> ntp0 = ValetudoNTPClientDisabledState
                \<or> embedded config0 \<noteq> Some True"
      and t: "evaluateTimers run C ntp0 config0 prev (this0, w0) = (this, w)"
      and n: "nowTime = prev + 60000 + 60000 * int k + r" "0 \<le> r" "r < 60000"
    for this0 w0 ntp0 config0 prev k r
  proof -
    define wm0 where "wm0 = rederive (nextScheduledCheckTime this0) prev"
    have "nextScheduledCheckTime this = Some (wm0 + MS_PER_MIN * int (boundaryCount wm0 prev))"
      using evaluateTimers_gate_open [OF g, of run C prev this0 w0] t by (auto simp: wm0_def)
    with assms(1) have wm: "wm = wm0 + MS_PER_MIN * int (boundaryCount wm0 prev)"
      by simp
    have "wm0 \<le> prev"
      unfolding wm0_def using rederive_range by blast
    from drained_range [OF this] have b: "prev \<le> wm \<and> wm < prev + 60000"
      by (simp add: wm MS_PER_MIN_def)
    with n cnt [of prev k r] show ?thesis
      by simp
  qed
  have zero: "minuteInstants wm nowTime = []
      \<and> evaluateTimers run C ntpState config nowTime (this, w) = (this, w)" if "\<not> wm < nowTime"
  proof -
    have e: "minuteInstants wm nowTime = []"
      using that by (rule minuteInstants_Nil)
    with ev assms(1) show ?thesis
      by simp
  qed
  have cnt': "\<forall>prev k r. prev \<le> wm \<and> wm < prev + 60000
               \<and> nowTime = prev + 60000 + 60000 * int k + r \<and> 0 \<le> r \<and> r < 60000
             \<longrightarrow> length (minuteInstants wm nowTime) = (if r \<le> wm - prev then k + 1 else k + 2)"
    using cnt by (intro allI impI)
  have ticks': "\<forall>this0 w0 ntp0 config0 prev k r.
             (ntp0 = ValetudoNTPClientSyncedState \<or> ntp0 = ValetudoNTPClientDisabledState
                \<or> embedded config0 \<noteq> Some True)
             \<and> evaluateTimers run C ntp0 config0 prev (this0, w0) = (this, w)
             \<and> nowTime = prev + 60000 + 60000 * int k + r \<and> 0 \<le> r \<and> r < 60000
             \<longrightarrow> prev \<le> wm \<and> wm < prev + 60000
               \<and> length (minuteInstants wm nowTime) = (if r \<le> wm - prev then k + 1 else k + 2)"
  proof (intro allI impI)
    fix this0 w0 ntp0 config0 prev k r
    assume a: "(ntp0 = ValetudoNTPClientSyncedState \<or> ntp0 = ValetudoNTPClientDisabledState
                \<or> embedded config0 \<noteq> Some True)
             \<and> evaluateTimers run C ntp0 config0 prev (this0, w0) = (this, w)
             \<and> nowTime = prev + 60000 + 60000 * int k + r \<and> 0 \<le> r \<and> r < 60000"
    show "prev \<le> wm \<and> wm < prev + 60000
               \<and> length (minuteInstants wm nowTime) = (if r \<le> wm - prev then k + 1 else k + 2)"
      by (rule ticks [of ntp0 config0 prev this0 w0 k r]) (use a in simp_all)
  qed
  have zero': "\<not> wm < nowTime \<longrightarrow> minuteInstants wm nowTime = []
             \<and> evaluateTimers run C ntpState config nowTime (this, w) = (this, w)"
    using zero by (intro impI)
  from ev shape mem srt dist num cnt' ticks' zero' show ?thesis
    by (intro conjI)
qed

theorem drain_loop_minutes_witness:
  "evaluateTimers countingRun valetudoConsts ValetudoNTPClientSyncedState config0 397740500
       (\<lparr>nextScheduledCheckTime = None\<rparr>, world0) =
     (\<lparr>nextScheduledCheckTime = Some 397740500\<rparr>, world0)
   \<and> (397860500::int) = 397740500 + 60000 + 60000 * int 1 + 0
   \<and> (397740500::int) \<le> 397860500 \<and> (397860500::int) - 397740500 \<le> 3600000
   \<and> evaluateTimers countingRun valetudoConsts ValetudoNTPClientSyncedState config0 397860500
         (\<lparr>nextScheduledCheckTime = Some 397740500\<rparr>, world0) =
       (\<lparr>nextScheduledCheckTime = Some 397860500\<rparr>,
        fold (evaluateMinute countingRun valetudoConsts (timers config0)) [397740500, 397800500] world0)
   \<and> minuteInstants 397740500 397860500 = [397740500, 397800500]
   \<and> length (minuteInstants 397740500 397860500) = 1 + 1"
proof -
  have h: "nextScheduledCheckTime \<lparr>nextScheduledCheckTime = Some 397740500\<rparr> = Some 397740500"
      "(397740500::int) \<le> 397860500" "(397860500::int) - 397740500 \<le> 3600000"
    by simp_all
  have g: "ValetudoNTPClientSyncedState = ValetudoNTPClientSyncedState
      \<or> ValetudoNTPClientSyncedState = ValetudoNTPClientDisabledState \<or> embedded config0 \<noteq> Some True"
    by simp
  have n: "(397860500::int) = 397740500 + 60000 + 60000 * int 1 + 0"
    by simp
  note mi = minuteInstants_example
  note th = drain_loop_minutes [OF h g, of countingRun valetudoConsts world0]
  from th have ev: "evaluateTimers countingRun valetudoConsts ValetudoNTPClientSyncedState config0 397860500
         (\<lparr>nextScheduledCheckTime = Some 397740500\<rparr>, world0) =
       (\<lparr>nextScheduledCheckTime = Some 397740500\<rparr>
          \<lparr>nextScheduledCheckTime := Some (397740500 + 60000 * int (length (minuteInstants 397740500 397860500)))\<rparr>,
        fold (evaluateMinute countingRun valetudoConsts (timers config0)) (minuteInstants 397740500 397860500) world0)"
    by (rule conjunct1)
  from th have "\<forall>this0 w0 ntp0 cfg0 prev k r.
             (ntp0 = ValetudoNTPClientSyncedState \<or> ntp0 = ValetudoNTPClientDisabledState
                \<or> embedded cfg0 \<noteq> Some True)
             \<and> evaluateTimers countingRun valetudoConsts ntp0 cfg0 prev (this0, w0)
                 = (\<lparr>nextScheduledCheckTime = Some 397740500\<rparr>, world0)
             \<and> (397860500::int) = prev + 60000 + 60000 * int k + r \<and> 0 \<le> r \<and> r < 60000
             \<longrightarrow> prev \<le> 397740500 \<and> 397740500 < prev + 60000
               \<and> length (minuteInstants 397740500 397860500)
                   = (if r \<le> 397740500 - prev then k + 1 else k + 2)"
    by (elim conjE)
  then have inst: "(ValetudoNTPClientSyncedState = ValetudoNTPClientSyncedState
                \<or> ValetudoNTPClientSyncedState = ValetudoNTPClientDisabledState
                \<or> embedded config0 \<noteq> Some True)
             \<and> evaluateTimers countingRun valetudoConsts ValetudoNTPClientSyncedState config0
                   397740500 (\<lparr>nextScheduledCheckTime = None\<rparr>, world0)
                 = (\<lparr>nextScheduledCheckTime = Some 397740500\<rparr>, world0)
             \<and> (397860500::int) = 397740500 + 60000 + 60000 * int 1 + 0 \<and> (0::int) \<le> 0
             \<and> (0::int) < 60000
             \<longrightarrow> (397740500::int) \<le> 397740500 \<and> (397740500::int) < 397740500 + 60000
               \<and> length (minuteInstants 397740500 397860500)
                   = (if (0::int) \<le> 397740500 - 397740500 then 1 + 1 else 1 + 2)"
    by (elim allE)
  have hyp: "(ValetudoNTPClientSyncedState = ValetudoNTPClientSyncedState
                \<or> ValetudoNTPClientSyncedState = ValetudoNTPClientDisabledState
                \<or> embedded config0 \<noteq> Some True)
             \<and> evaluateTimers countingRun valetudoConsts ValetudoNTPClientSyncedState config0
                   397740500 (\<lparr>nextScheduledCheckTime = None\<rparr>, world0)
                 = (\<lparr>nextScheduledCheckTime = Some 397740500\<rparr>, world0)
             \<and> (397860500::int) = 397740500 + 60000 + 60000 * int 1 + 0 \<and> (0::int) \<le> 0
             \<and> (0::int) < 60000"
    using first_tick_example by (intro conjI) simp_all
  from inst [THEN mp, OF hyp]
  have "length (minuteInstants 397740500 397860500)
      = (if (0::int) \<le> 397740500 - 397740500 then 1 + 1 else 1 + 2)"
    by (elim conjE)
  then have len: "length (minuteInstants 397740500 397860500) = 1 + 1"
    by simp
  from ev have ev': "evaluateTimers countingRun valetudoConsts ValetudoNTPClientSyncedState config0 397860500
         (\<lparr>nextScheduledCheckTime = Some 397740500\<rparr>, world0) =
       (\<lparr>nextScheduledCheckTime = Some 397860500\<rparr>,
        fold (evaluateMinute countingRun valetudoConsts (timers config0)) [397740500, 397800500] world0)"
    by (simp add: mi)
  from first_tick_example n h(2,3) ev' mi len show ?thesis
    by (intro conjI)
qed

text \<open>A watermark one second before \<open>now\<close> is below \<open>now\<close>: the loop runs once, for that
  instant, and advances the watermark.\<close>

lemma one_second_behind:
  "boundaryCount (nowTime - 1000) nowTime = 1 \<and> minuteInstants (nowTime - 1000) nowTime = [nowTime - 1000]"
proof -
  have "boundaryCount (nowTime - 1000) nowTime = 0 + 1"
    by (rule boundaryCount_between) (simp_all add: MS_PER_MIN_def)
  then show ?thesis
    by (simp add: minuteInstants_def)
qed

section \<open>The watermark before the loop\<close>

lemma drain_example_reset:
  "drainLoop countingRun valetudoConsts (timers config0) 397860500 397800500 world0 =
     (397860500,
      \<lparr>device = 2,
       events = [LoggerInfo ''Executing timer t2'',
                 Run (ValetudoFanSpeedControlTimerPreAction (Some ''max'')),
                 LoggerInfo ''Executing timer t1'',
                 Run ValetudoFullCleanupTimerAction],
       pending = [Awaiting ''t2'' None
                    [ValetudoWaterUsageControlTimerPreAction (Some ''low''),
                     ValetudoFullCleanupTimerAction],
                  Awaiting ''t1'' None []]\<rparr>)"
  by code_simp

text \<open>
  Claim C2. On a tick that passes the gate: when the watermark is unset, or after \<open>now\<close>,
  or more than 60 minutes before \<open>now\<close>, the loop starts from exactly \<open>now - 60000\<close>;
  otherwise it starts from the watermark as it was.
\<close>

theorem watermark_rederived:
  assumes "ntpState = ValetudoNTPClientSyncedState \<or> ntpState = ValetudoNTPClientDisabledState
             \<or> embedded config \<noteq> Some True"
  shows "(nextScheduledCheckTime this = None
          \<or> (\<exists>wm. nextScheduledCheckTime this = Some wm \<and> (wm > nowTime \<or> nowTime - wm > 3600000))
        \<longrightarrow> evaluateTimers run C ntpState config nowTime (this, w) =
              (case drainLoop run C (timers config) nowTime (nowTime - 60000) w of
                 (n, w') \<Rightarrow> (this\<lparr>nextScheduledCheckTime := Some n\<rparr>, w')))
       \<and> (\<forall>wm. nextScheduledCheckTime this = Some wm \<and> wm \<le> nowTime \<and> nowTime - wm \<le> 3600000
        \<longrightarrow> evaluateTimers run C ntpState config nowTime (this, w) =
              (case drainLoop run C (timers config) nowTime wm w of
                 (n, w') \<Rightarrow> (this\<lparr>nextScheduledCheckTime := Some n\<rparr>, w')))"
proof -
  have reset: "rederive (nextScheduledCheckTime this) nowTime = nowTime - 60000"
    if "nextScheduledCheckTime this = None
          \<or> (\<exists>wm. nextScheduledCheckTime this = Some wm \<and> (wm > nowTime \<or> nowTime - wm > 3600000))"
    using that by (auto simp: rederive_def MS_PER_MIN_def)
  have keep: "rederive (nextScheduledCheckTime this) nowTime = wm"
    if "nextScheduledCheckTime this = Some wm \<and> wm \<le> nowTime \<and> nowTime - wm \<le> 3600000" for wm
    using that by (auto simp: rederive_def MS_PER_MIN_def)
  have ev: "evaluateTimers run C ntpState config nowTime (this, w) =
      (case drainLoop run C (timers config) nowTime (rederive (nextScheduledCheckTime this) nowTime) w of
         (n, w') \<Rightarrow> (this\<lparr>nextScheduledCheckTime := Some n\<rparr>, w'))"
    using assms by (auto simp: evaluateTimers_def)
  show ?thesis
    using reset keep by (simp add: ev)
qed

theorem watermark_rederived_witness:
  "evaluateTimers countingRun valetudoConsts ValetudoNTPClientSyncedState config0 397860500
       (\<lparr>nextScheduledCheckTime = None\<rparr>, world0) =
     (\<lparr>nextScheduledCheckTime = Some 397860500\<rparr>,
      \<lparr>device = 2,
       events = [LoggerInfo ''Executing timer t2'',
                 Run (ValetudoFanSpeedControlTimerPreAction (Some ''max'')),
                 LoggerInfo ''Executing timer t1'',
                 Run ValetudoFullCleanupTimerAction],
       pending = [Awaiting ''t2'' None
                    [ValetudoWaterUsageControlTimerPreAction (Some ''low''),
                     ValetudoFullCleanupTimerAction],
                  Awaiting ''t1'' None []]\<rparr>)
   \<and> evaluateTimers countingRun valetudoConsts ValetudoNTPClientSyncedState config0 397860500
       (\<lparr>nextScheduledCheckTime = Some 393000000\<rparr>, world0) =
     (case drainLoop countingRun valetudoConsts (timers config0) 397860500 (397860500 - 60000) world0 of
        (n, w') \<Rightarrow> (\<lparr>nextScheduledCheckTime = Some n\<rparr>, w'))
   \<and> evaluateTimers countingRun valetudoConsts ValetudoNTPClientSyncedState config0 397860500
       (\<lparr>nextScheduledCheckTime = Some 397800500\<rparr>, world0) =
     (case drainLoop countingRun valetudoConsts (timers config0) 397860500 397800500 world0 of
        (n, w') \<Rightarrow> (\<lparr>nextScheduledCheckTime = Some n\<rparr>, w'))"
proof -
  have g: "ValetudoNTPClientSyncedState = ValetudoNTPClientSyncedState
      \<or> ValetudoNTPClientSyncedState = ValetudoNTPClientDisabledState \<or> embedded config0 \<noteq> Some True"
    by simp
  note th = watermark_rederived [OF g, of _ 397860500 countingRun valetudoConsts world0]
  from th [of "\<lparr>nextScheduledCheckTime = None\<rparr>"] have a:
    "evaluateTimers countingRun valetudoConsts ValetudoNTPClientSyncedState config0 397860500
       (\<lparr>nextScheduledCheckTime = None\<rparr>, world0) =
     (case drainLoop countingRun valetudoConsts (timers config0) 397860500 (397860500 - 60000) world0 of
        (n, w') \<Rightarrow> (\<lparr>nextScheduledCheckTime = Some n\<rparr>, w'))"
    by simp
  from th [of "\<lparr>nextScheduledCheckTime = Some 393000000\<rparr>"] have b:
    "evaluateTimers countingRun valetudoConsts ValetudoNTPClientSyncedState config0 397860500
       (\<lparr>nextScheduledCheckTime = Some 393000000\<rparr>, world0) =
     (case drainLoop countingRun valetudoConsts (timers config0) 397860500 (397860500 - 60000) world0 of
        (n, w') \<Rightarrow> (\<lparr>nextScheduledCheckTime = Some n\<rparr>, w'))"
    by simp
  from th [of "\<lparr>nextScheduledCheckTime = Some 397800500\<rparr>"] have c:
    "evaluateTimers countingRun valetudoConsts ValetudoNTPClientSyncedState config0 397860500
       (\<lparr>nextScheduledCheckTime = Some 397800500\<rparr>, world0) =
     (case drainLoop countingRun valetudoConsts (timers config0) 397860500 397800500 world0 of
        (n, w') \<Rightarrow> (\<lparr>nextScheduledCheckTime = Some n\<rparr>, w'))"
    by simp
  from a have "evaluateTimers countingRun valetudoConsts ValetudoNTPClientSyncedState config0 397860500
       (\<lparr>nextScheduledCheckTime = None\<rparr>, world0) =
     (\<lparr>nextScheduledCheckTime = Some 397860500\<rparr>,
      \<lparr>device = 2,
       events = [LoggerInfo ''Executing timer t2'',
                 Run (ValetudoFanSpeedControlTimerPreAction (Some ''max'')),
                 LoggerInfo ''Executing timer t1'',
                 Run ValetudoFullCleanupTimerAction],
       pending = [Awaiting ''t2'' None
                    [ValetudoWaterUsageControlTimerPreAction (Some ''low''),
                     ValetudoFullCleanupTimerAction],
                  Awaiting ''t1'' None []]\<rparr>)"
    by (simp add: drain_example_reset)
  with b c show ?thesis
    by simp
qed

section \<open>The gate on the state of the NTP client\<close>

lemma config_example_not_embedded:
  "embedded (config0\<lparr>embedded := Some False\<rparr>) \<noteq> Some True
   \<and> timers (config0\<lparr>embedded := Some False\<rparr>) = timers config0"
  by (simp add: config0_def)

text \<open>
  Claim C3. When the state of the NTP client is neither synced nor disabled and
  \<open>embedded\<close> is \<open>true\<close>, \<open>evaluateTimers\<close> returns at once: the scheduler and the world
  (the log, the device) are exactly as they were. When \<open>embedded\<close> is not \<open>true\<close>, the tick
  is evaluated whatever the state of the NTP client: the watermark is re-derived, the
  loop runs, and the watermark it leaves is set and not before \<open>now\<close>.
\<close>

theorem sync_gate:
  "(ntpState \<noteq> ValetudoNTPClientSyncedState \<and> ntpState \<noteq> ValetudoNTPClientDisabledState
      \<and> embedded config = Some True
    \<longrightarrow> evaluateTimers run C ntpState config nowTime (this, w) = (this, w))
   \<and> (embedded config \<noteq> Some True
    \<longrightarrow> evaluateTimers run C ntpState config nowTime (this, w) =
          (case drainLoop run C (timers config) nowTime
                  (rederive (nextScheduledCheckTime this) nowTime) w of
             (n, w') \<Rightarrow> (this\<lparr>nextScheduledCheckTime := Some n\<rparr>, w'))
        \<and> (\<exists>n. nextScheduledCheckTime (fst (evaluateTimers run C ntpState config nowTime (this, w))) = Some n
              \<and> nowTime \<le> n))"
proof -
  have closed: "evaluateTimers run C ntpState config nowTime (this, w) = (this, w)"
    if "ntpState \<noteq> ValetudoNTPClientSyncedState \<and> ntpState \<noteq> ValetudoNTPClientDisabledState
      \<and> embedded config = Some True"
    using that by (simp add: evaluateTimers_def)
  have "evaluateTimers run C ntpState config nowTime (this, w) =
          (case drainLoop run C (timers config) nowTime
                  (rederive (nextScheduledCheckTime this) nowTime) w of
             (n, w') \<Rightarrow> (this\<lparr>nextScheduledCheckTime := Some n\<rparr>, w'))
        \<and> (\<exists>n. nextScheduledCheckTime (fst (evaluateTimers run C ntpState config nowTime (this, w))) = Some n
              \<and> nowTime \<le> n)"
    if e: "embedded config \<noteq> Some True"
  proof -
    have "rederive (nextScheduledCheckTime this) nowTime \<le> nowTime"
      using rederive_range by blast
    then have "nowTime \<le> rederive (nextScheduledCheckTime this) nowTime
           + MS_PER_MIN * int (boundaryCount (rederive (nextScheduledCheckTime this) nowTime) nowTime)"
      using drained_range by blast
    moreover have "evaluateTimers run C ntpState config nowTime (this, w) =
          (case drainLoop run C (timers config) nowTime
                  (rederive (nextScheduledCheckTime this) nowTime) w of
             (n, w') \<Rightarrow> (this\<lparr>nextScheduledCheckTime := Some n\<rparr>, w'))"
      using e by (simp add: evaluateTimers_def)
    ultimately show ?thesis
      by (simp add: drainLoop_fold)
  qed
  with closed show ?thesis
    by blast
qed

theorem sync_gate_witness:
  "evaluateTimers countingRun valetudoConsts OtherNTPClientState config0 397860500
       (\<lparr>nextScheduledCheckTime = Some 397800500\<rparr>, world0) =
     (\<lparr>nextScheduledCheckTime = Some 397800500\<rparr>, world0)
   \<and> evaluateTimers countingRun valetudoConsts OtherNTPClientState
       (config0\<lparr>embedded := Some False\<rparr>) 397860500
       (\<lparr>nextScheduledCheckTime = Some 397800500\<rparr>, world0) =
     (\<lparr>nextScheduledCheckTime = Some 397860500\<rparr>,
      \<lparr>device = 2,
       events = [LoggerInfo ''Executing timer t2'',
                 Run (ValetudoFanSpeedControlTimerPreAction (Some ''max'')),
                 LoggerInfo ''Executing timer t1'',
                 Run ValetudoFullCleanupTimerAction],
       pending = [Awaiting ''t2'' None
                    [ValetudoWaterUsageControlTimerPreAction (Some ''low''),
                     ValetudoFullCleanupTimerAction],
                  Awaiting ''t1'' None []]\<rparr>)"
proof -
  have e: "embedded config0 = Some True"
    by (simp add: config0_def)
  have r: "rederive (Some 397800500) 397860500 = 397800500"
    by (simp add: rederive_def MS_PER_MIN_def)
  from sync_gate [of OtherNTPClientState config0 countingRun valetudoConsts 397860500
      "\<lparr>nextScheduledCheckTime = Some 397800500\<rparr>" world0]
  have a: "evaluateTimers countingRun valetudoConsts OtherNTPClientState config0 397860500
       (\<lparr>nextScheduledCheckTime = Some 397800500\<rparr>, world0) =
     (\<lparr>nextScheduledCheckTime = Some 397800500\<rparr>, world0)"
    using e by simp
  from sync_gate [of OtherNTPClientState "config0\<lparr>embedded := Some False\<rparr>" countingRun valetudoConsts
      397860500 "\<lparr>nextScheduledCheckTime = Some 397800500\<rparr>" world0]
  have "evaluateTimers countingRun valetudoConsts OtherNTPClientState
       (config0\<lparr>embedded := Some False\<rparr>) 397860500
       (\<lparr>nextScheduledCheckTime = Some 397800500\<rparr>, world0) =
     (case drainLoop countingRun valetudoConsts (timers config0) 397860500 397800500 world0 of
        (n, w') \<Rightarrow> (\<lparr>nextScheduledCheckTime = Some n\<rparr>, w'))"
    using config_example_not_embedded by (simp add: r)
  then have "evaluateTimers countingRun valetudoConsts OtherNTPClientState
       (config0\<lparr>embedded := Some False\<rparr>) 397860500
       (\<lparr>nextScheduledCheckTime = Some 397800500\<rparr>, world0) =
     (\<lparr>nextScheduledCheckTime = Some 397860500\<rparr>,
      \<lparr>device = 2,
       events = [LoggerInfo ''Executing timer t2'',
                 Run (ValetudoFanSpeedControlTimerPreAction (Some ''max'')),
                 LoggerInfo ''Executing timer t1'',
                 Run ValetudoFullCleanupTimerAction],
       pending = [Awaiting ''t2'' None
                    [ValetudoWaterUsageControlTimerPreAction (Some ''low''),
                     ValetudoFullCleanupTimerAction],
                  Awaiting ''t1'' None []]\<rparr>)"
    by (simp add: drain_example_reset)
  with a show ?thesis
    by simp
qed

section \<open>The offset of the watermark within its minute\<close>

lemma rederive_phase:
  "rederive nsct nowTime mod 60000 =
     (case nsct of
        None \<Rightarrow> nowTime mod 60000
      | Some wm \<Rightarrow> if wm > nowTime \<or> nowTime - wm > 3600000 then nowTime mod 60000 else wm mod 60000)"
proof -
  have "(nowTime - 60000) mod 60000 = nowTime mod 60000"
    by (metis mod_diff_right_eq mod_self diff_zero)
  then show ?thesis
    by (auto simp: rederive_def MS_PER_MIN_def split: option.splits)
qed

text \<open>
  Claim C9 says that a watermark that is set is a minute boundary. The code does not
  round: the re-derivation stores \<open>now - 60000\<close> and the loop adds 60000, so the watermark
  keeps the milliseconds of the \<open>now\<close> it was derived from. A first tick at
  \<open>397860500\<close> (14:31:00.500) resets the watermark to \<open>397800500\<close> and leaves it at
  \<open>397860500\<close>; neither is a whole number of minutes.
\<close>

theorem watermark_not_minute_boundary:
  "nextScheduledCheckTime (fst (evaluateTimers countingRun valetudoConsts ValetudoNTPClientSyncedState
       config0 397860500 (\<lparr>nextScheduledCheckTime = None\<rparr>, world0))) = Some 397860500
   \<and> \<not> minuteBoundary 397860500
   \<and> rederive None 397860500 = 397800500
   \<and> \<not> minuteBoundary 397800500"
proof -
  have g: "ValetudoNTPClientSyncedState = ValetudoNTPClientSyncedState
      \<or> ValetudoNTPClientSyncedState = ValetudoNTPClientDisabledState \<or> embedded config0 \<noteq> Some True"
    by simp
  have r: "rederive None 397860500 = 397800500"
    by (simp add: rederive_def MS_PER_MIN_def)
  have b: "boundaryCount 397800500 397860500 = 1"
    by (simp add: boundaryCount_def MS_PER_MIN_def)
  have "nextScheduledCheckTime (fst (evaluateTimers countingRun valetudoConsts ValetudoNTPClientSyncedState
       config0 397860500 (\<lparr>nextScheduledCheckTime = None\<rparr>, world0))) = Some 397860500"
    by (simp add: evaluateTimers_gate_open [OF g] r b MS_PER_MIN_def)
  then show ?thesis
    by (simp add: r minuteBoundary_def MS_PER_MIN_def)
qed

text \<open>
  Claim C9, amended. After a tick that passes the gate the watermark is set, lies in
  \<open>[now, now + 60000)\<close>, and has the same offset within the minute as the value the loop
  started from: that of \<open>now\<close> when the watermark was re-derived, that of the previous
  watermark otherwise. Every instant the loop evaluates has this offset too. So the
  watermark is a minute boundary exactly when the value it was derived from is one.
\<close>

theorem watermark_keeps_phase:
  assumes "ntpState = ValetudoNTPClientSyncedState \<or> ntpState = ValetudoNTPClientDisabledState
             \<or> embedded config \<noteq> Some True"
  shows "\<exists>wm'. nextScheduledCheckTime (fst (evaluateTimers run C ntpState config nowTime (this, w))) = Some wm'
     \<and> nowTime \<le> wm' \<and> wm' < nowTime + 60000
     \<and> wm' mod 60000 =
         (case nextScheduledCheckTime this of
            None \<Rightarrow> nowTime mod 60000
          | Some wm \<Rightarrow>
              if wm > nowTime \<or> nowTime - wm > 3600000 then nowTime mod 60000 else wm mod 60000)
     \<and> (\<forall>t \<in> set (minuteInstants (rederive (nextScheduledCheckTime this) nowTime) nowTime).
           t mod 60000 = wm' mod 60000)
     \<and> (minuteBoundary wm' \<longleftrightarrow> minuteBoundary (rederive (nextScheduledCheckTime this) nowTime))"
proof -
  define wm0 where "wm0 = rederive (nextScheduledCheckTime this) nowTime"
  define wm' where "wm' = wm0 + MS_PER_MIN * int (boundaryCount wm0 nowTime)"
  have ev: "nextScheduledCheckTime (fst (evaluateTimers run C ntpState config nowTime (this, w))) = Some wm'"
    by (simp add: evaluateTimers_gate_open [OF assms] wm0_def wm'_def)
  have "wm0 \<le> nowTime"
    unfolding wm0_def using rederive_range by blast
  then have rng: "nowTime \<le> wm'" "wm' < nowTime + 60000"
    using drained_range [of wm0 nowTime] by (simp_all add: wm'_def MS_PER_MIN_def)
  have ph: "wm' mod 60000 = wm0 mod 60000"
    by (simp add: wm'_def MS_PER_MIN_def)
  have inst: "t mod 60000 = wm' mod 60000" if "t \<in> set (minuteInstants wm0 nowTime)" for t
  proof -
    from that obtain i where "t = wm0 + MS_PER_MIN * int i"
      by (auto simp: minuteInstants_def)
    then show ?thesis
      by (simp add: ph MS_PER_MIN_def)
  qed
  have mb: "minuteBoundary wm' \<longleftrightarrow> minuteBoundary wm0"
    by (simp add: minuteBoundary_def MS_PER_MIN_def ph)
  show ?thesis
    using ev rng ph inst mb rederive_phase [of "nextScheduledCheckTime this" nowTime]
    unfolding wm0_def [symmetric] by (intro exI [of _ wm']) simp
qed

theorem watermark_keeps_phase_witness:
  "nextScheduledCheckTime (fst (evaluateTimers countingRun valetudoConsts ValetudoNTPClientSyncedState
       config0 397860500 (\<lparr>nextScheduledCheckTime = Some 397740500\<rparr>, world0))) = Some 397860500
   \<and> (397860500 :: int) mod 60000 = 397740500 mod 60000
   \<and> \<not> minuteBoundary 397860500"
proof -
  have g: "ValetudoNTPClientSyncedState = ValetudoNTPClientSyncedState
      \<or> ValetudoNTPClientSyncedState = ValetudoNTPClientDisabledState \<or> embedded config0 \<noteq> Some True"
    by simp
  from watermark_keeps_phase [OF g, of countingRun valetudoConsts 397860500
      "\<lparr>nextScheduledCheckTime = Some 397740500\<rparr>" world0]
  obtain wm' where a: "nextScheduledCheckTime (fst (evaluateTimers countingRun valetudoConsts
        ValetudoNTPClientSyncedState config0 397860500
        (\<lparr>nextScheduledCheckTime = Some 397740500\<rparr>, world0))) = Some wm'"
    and b: "397860500 \<le> wm'" "wm' < 397860500 + 60000" and c: "wm' mod 60000 = 397740500 mod 60000"
    by auto
  have r: "rederive (Some 397740500) 397860500 = 397740500"
    by (simp add: rederive_def MS_PER_MIN_def)
  have n: "boundaryCount 397740500 397860500 = 2"
    by (simp add: boundaryCount_def MS_PER_MIN_def)
  have "nextScheduledCheckTime (fst (evaluateTimers countingRun valetudoConsts
        ValetudoNTPClientSyncedState config0 397860500
        (\<lparr>nextScheduledCheckTime = Some 397740500\<rparr>, world0))) = Some 397860500"
    by (simp add: evaluateTimers_gate_open [OF g] r n MS_PER_MIN_def)
  with a have "wm' = 397860500"
    by simp
  with a c show ?thesis
    by (simp add: minuteBoundary_def MS_PER_MIN_def)
qed

section \<open>The pipeline of one timer\<close>

subsection \<open>The two loops over the pre-actions\<close>

lemma resolvePreAction_unrecognised:
  "resolvePreAction C d = Inr None \<longleftrightarrow>
     pre_type d \<noteq> Some (FAN_SPEED_CONTROL C) \<and> pre_type d \<noteq> Some (WATER_USAGE_CONTROL C)
     \<and> pre_type d \<noteq> Some (OPERATION_MODE_CONTROL C)"
  by (auto simp: resolvePreAction_def split: sum.splits)

lemma collectPreActions_unrecognised:
  assumes "d \<in> set ds" and "resolvePreAction C d = Inr None"
  shows "(\<exists>e. collectPreActions C tid ds acc w = (Inl e, w))
       \<or> (\<exists>a b. collectPreActions C tid ds acc w = (Inr None, log_event (LoggerWarn a b) w))"
  using assms
proof (induction ds arbitrary: acc)
  case Nil
  then show ?case by simp
next
  case (Cons x xs)
  show ?case
  proof (cases "resolvePreAction C x")
    case (Inl e)
    then show ?thesis by simp
  next
    case (Inr r)
    show ?thesis
    proof (cases r)
      case None
      with Inr show ?thesis by auto
    next
      case (Some h)
      with Inr Cons.prems have "d \<in> set xs"
        by auto
      from Cons.IH [OF this Cons.prems(2)] Inr Some show ?thesis
        by simp
    qed
  qed
qed

lemma collectPreActions_valid:
  assumes "map (resolvePreAction C) ds = map (\<lambda>h. Inr (Some h)) hs"
  shows "collectPreActions C tid ds acc w = (Inr (Some (acc @ hs)), w)"
  using assms
proof (induction ds arbitrary: acc hs)
  case Nil
  then show ?case by simp
next
  case (Cons x xs)
  from Cons.prems obtain h hs' where hs: "hs = h # hs'"
    and x: "resolvePreAction C x = Inr (Some h)"
    and xs: "map (resolvePreAction C) xs = map (\<lambda>h. Inr (Some h)) hs'"
    by (cases hs) auto
  from Cons.IH [OF xs, of "acc @ [h]"] x hs show ?case
    by simp
qed

lemma runPreActions_append:
  "runPreActions run (hs @ [act]) w =
     (case runPreActions run hs w of
        (Inl e, w2) \<Rightarrow> (Inl e, w2)
      | (Inr u, w2) \<Rightarrow> await_run run act w2)"
proof (induction hs arbitrary: w)
  case Nil
  show ?case
    by (simp split: prod.splits sum.splits)
next
  case (Cons h hs)
  show ?case
    by (simp add: Cons.IH split: prod.splits sum.splits)
qed

lemma await_run_cases:
  "await_run run h w =
     (case fst (run h (device w)) of None \<Rightarrow> Inr () | Some e \<Rightarrow> Inl e,
      w\<lparr>device := snd (run h (device w)), events := events w @ [Run h]\<rparr>)"
  by (simp add: await_run_def split: prod.splits option.splits)

lemma runPreActions_prefix:
  assumes "runPreActions run ops w = (r, w')"
  shows "\<exists>started rest. ops = started @ rest
      \<and> events w' = events w @ map Run started
      \<and> device w' = deviceAfter run started (device w)
      \<and> (r = Inr () \<longrightarrow> rest = [] \<and> allSucceed run started (device w))
      \<and> (\<forall>e. r = Inl e \<longrightarrow>
            (\<exists>before h. started = before @ [h] \<and> allSucceed run before (device w)
               \<and> fst (run h (deviceAfter run before (device w))) = Some e))"
  using assms
proof (induction ops arbitrary: w)
  case Nil
  then show ?case
    by (auto simp: deviceAfter_def)
next
  case (Cons h hs)
  define w1 where "w1 = w\<lparr>device := snd (run h (device w)), events := events w @ [Run h]\<rparr>"
  show ?case
  proof (cases "fst (run h (device w))")
    case (Some e)
    with Cons.prems have r: "r = Inl e" and w': "w' = w1"
      by (simp_all add: await_run_cases w1_def)
    have "h # hs = [h] @ hs \<and> events w' = events w @ map Run [h]
        \<and> device w' = deviceAfter run [h] (device w)
        \<and> [h] = [] @ [h] \<and> allSucceed run [] (device w)
        \<and> fst (run h (deviceAfter run [] (device w))) = Some e"
      using Some by (simp add: w' w1_def deviceAfter_def)
    with r show ?thesis
      by blast
  next
    case None
    with Cons.prems have "runPreActions run hs w1 = (r, w')"
      by (simp add: await_run_cases w1_def)
    from Cons.IH [OF this] obtain started rest where
      a: "hs = started @ rest" and b: "events w' = events w1 @ map Run started"
      and c: "device w' = deviceAfter run started (device w1)"
      and d: "r = Inr () \<longrightarrow> rest = [] \<and> allSucceed run started (device w1)"
      and e: "\<forall>e. r = Inl e \<longrightarrow>
            (\<exists>before h. started = before @ [h] \<and> allSucceed run before (device w1)
               \<and> fst (run h (deviceAfter run before (device w1))) = Some e)"
      by blast
    have 1: "h # hs = (h # started) @ rest"
      using a by simp
    have 2: "events w' = events w @ map Run (h # started)"
      using b by (simp add: w1_def)
    have 3: "device w' = deviceAfter run (h # started) (device w)"
      using c by (simp add: w1_def deviceAfter_def)
    have 4: "r = Inr () \<longrightarrow> rest = [] \<and> allSucceed run (h # started) (device w)"
      using d None by (simp add: w1_def)
    have 5: "\<exists>before h'. h # started = before @ [h'] \<and> allSucceed run before (device w)
               \<and> fst (run h' (deviceAfter run before (device w))) = Some e'" if "r = Inl e'" for e'
    proof -
      from e that obtain before h' where "started = before @ [h']"
        "allSucceed run before (device w1)"
        "fst (run h' (deviceAfter run before (device w1))) = Some e'"
        by blast
      then have "h # started = (h # before) @ [h'] \<and> allSucceed run (h # before) (device w)
               \<and> fst (run h' (deviceAfter run (h # before) (device w))) = Some e'"
        using None by (simp add: w1_def deviceAfter_def)
      then show ?thesis
        by blast
    qed
    from 1 2 3 4 5 show ?thesis
      by blast
  qed
qed

lemma deviceAfter_append:
  "deviceAfter run (xs @ ys) d = deviceAfter run ys (deviceAfter run xs d)"
  by (simp add: deviceAfter_def)

lemma allSucceed_append:
  "allSucceed run (xs @ ys) d \<longleftrightarrow>
     allSucceed run xs d \<and> allSucceed run ys (deviceAfter run xs d)"
  by (induction xs arbitrary: d) (simp_all add: deviceAfter_def)

lemma executeTimer_valid:
  assumes "resolveAction C (action td) = Some act"
    and "map (resolvePreAction C) (case pre_actions td of None \<Rightarrow> [] | Some ds \<Rightarrow> ds)
           = map (\<lambda>h. Inr (Some h)) hs"
  shows "executeTimer run C td w = runPreActions run (hs @ [act]) w"
proof (cases "pre_actions td")
  case None
  with assms(2) have "hs = []"
    by simp
  with None assms(1) show ?thesis
    by (simp add: executeTimer_def split: prod.splits sum.splits)
next
  case (Some ds)
  with assms(2) have "collectPreActions C (timer_id td) ds [] w = (Inr (Some hs), w)"
    using collectPreActions_valid [of C ds hs "timer_id td" "[]" w] by simp
  with Some assms(1) show ?thesis
    by (simp add: executeTimer_def runPreActions_append)
qed

lemma t2_valid:
  "resolveAction valetudoConsts (action timerT2) = Some ValetudoFullCleanupTimerAction
   \<and> map (resolvePreAction valetudoConsts) (case pre_actions timerT2 of None \<Rightarrow> [] | Some ds \<Rightarrow> ds)
       = map (\<lambda>h. Inr (Some h))
           [ValetudoFanSpeedControlTimerPreAction (Some ''max''),
            ValetudoWaterUsageControlTimerPreAction (Some ''low'')]"
  by (simp add: timerT2_def fullCleanup_def fanMax_def waterLow_def valetudoConsts_def
      resolveAction_def resolvePreAction_def params_value_def)

lemma t2_fan_fails:
  "executeTimer fanFailingRun valetudoConsts timerT2 world0 =
     (Inl (OperationError ''fan speed''),
      \<lparr>device = 1, events = [Run (ValetudoFanSpeedControlTimerPreAction (Some ''max''))], pending = []\<rparr>)"
  by code_simp

text \<open>
  Claim C6. For a timer whose action and pre-actions all resolve to handlers \<open>act\<close> and
  \<open>hs\<close> (in the listed order), the device operations that \<open>executeTimer\<close> starts are a
  prefix \<open>started\<close> of \<open>hs @ [act]\<close>, in that order, each starting in the device state its
  predecessor left. When the promise is fulfilled the prefix is the whole sequence and
  every operation succeeded; when it is rejected with \<open>e\<close>, the last operation started is
  the one that failed with \<open>e\<close>, those before it succeeded and nothing was started after
  it. The action is started only when all pre-actions succeeded. The device is left in
  the state after the operations started: nothing is undone.
\<close>

theorem pipeline_runs_a_prefix:
  assumes "resolveAction C (action td) = Some act"
    and "map (resolvePreAction C) (case pre_actions td of None \<Rightarrow> [] | Some ds \<Rightarrow> ds)
           = map (\<lambda>h. Inr (Some h)) hs"
    and "executeTimer run C td w = (r, w')"
  shows "\<exists>started rest. hs @ [act] = started @ rest
      \<and> events w' = events w @ map Run started
      \<and> device w' = deviceAfter run started (device w)
      \<and> (r = Inr () \<longrightarrow> rest = [] \<and> allSucceed run (hs @ [act]) (device w))
      \<and> (\<forall>e. r = Inl e \<longrightarrow>
            (\<exists>before h. started = before @ [h] \<and> allSucceed run before (device w)
               \<and> fst (run h (deviceAfter run before (device w))) = Some e))
      \<and> (rest = [] \<longrightarrow> allSucceed run hs (device w))"
proof -
  have "runPreActions run (hs @ [act]) w = (r, w')"
    using executeTimer_valid [OF assms(1,2), of run w] assms(3) by simp
  from runPreActions_prefix [OF this] obtain started rest where
    a: "hs @ [act] = started @ rest" and b: "events w' = events w @ map Run started"
    and c: "device w' = deviceAfter run started (device w)"
    and d: "r = Inr () \<longrightarrow> rest = [] \<and> allSucceed run started (device w)"
    and e: "\<forall>e. r = Inl e \<longrightarrow>
            (\<exists>before h. started = before @ [h] \<and> allSucceed run before (device w)
               \<and> fst (run h (deviceAfter run before (device w))) = Some e)"
    by (elim exE conjE)
  have d': "r = Inr () \<longrightarrow> rest = [] \<and> allSucceed run (hs @ [act]) (device w)"
    using a d by auto
  have f: "allSucceed run hs (device w)" if "rest = []"
  proof (cases r)
    case (Inr u)
    with d' show ?thesis
      by (simp add: allSucceed_append)
  next
    case (Inl x)
    with e obtain before h where "started = before @ [h]" "allSucceed run before (device w)"
      by blast
    with a that show ?thesis
      by simp
  qed
  from a b c d' e f show ?thesis
    by blast
qed

theorem pipeline_runs_a_prefix_witness:
  "resolveAction valetudoConsts (action timerT2) = Some ValetudoFullCleanupTimerAction
   \<and> executeTimer fanFailingRun valetudoConsts timerT2 world0 =
       (Inl (OperationError ''fan speed''),
        \<lparr>device = 1, events = [Run (ValetudoFanSpeedControlTimerPreAction (Some ''max''))], pending = []\<rparr>)
   \<and> (\<exists>started rest.
         [ValetudoFanSpeedControlTimerPreAction (Some ''max''),
          ValetudoWaterUsageControlTimerPreAction (Some ''low'')] @ [ValetudoFullCleanupTimerAction]
           = started @ rest
       \<and> [Run (ValetudoFanSpeedControlTimerPreAction (Some ''max''))] = map Run started
       \<and> (1::nat) = deviceAfter fanFailingRun started 0
       \<and> (\<exists>before h. started = before @ [h] \<and> allSucceed fanFailingRun before 0
             \<and> fst (fanFailingRun h (deviceAfter fanFailingRun before 0))
                 = Some (OperationError ''fan speed'')))"
proof -
  from pipeline_runs_a_prefix [OF t2_valid [THEN conjunct1] t2_valid [THEN conjunct2] t2_fan_fails]
  obtain started rest where
    a: "[ValetudoFanSpeedControlTimerPreAction (Some ''max''),
          ValetudoWaterUsageControlTimerPreAction (Some ''low'')] @ [ValetudoFullCleanupTimerAction]
           = started @ rest"
    and b: "events \<lparr>device = 1::nat, events = [Run (ValetudoFanSpeedControlTimerPreAction (Some ''max''))], pending = []\<rparr>
        = events world0 @ map Run started"
    and c: "device \<lparr>device = 1::nat, events = [Run (ValetudoFanSpeedControlTimerPreAction (Some ''max''))], pending = []\<rparr>
        = deviceAfter fanFailingRun started (device world0)"
    and e: "\<forall>e. (Inl (OperationError ''fan speed'') :: error + unit) = Inl e \<longrightarrow>
            (\<exists>before h. started = before @ [h] \<and> allSucceed fanFailingRun before (device world0)
               \<and> fst (fanFailingRun h (deviceAfter fanFailingRun before (device world0))) = Some e)"
    by (elim exE conjE)
  from e have e': "\<exists>before h. started = before @ [h] \<and> allSucceed fanFailingRun before 0
             \<and> fst (fanFailingRun h (deviceAfter fanFailingRun before 0))
                 = Some (OperationError ''fan speed'')"
    by (simp add: world0_def)
  from a b c e' have "[ValetudoFanSpeedControlTimerPreAction (Some ''max''),
          ValetudoWaterUsageControlTimerPreAction (Some ''low'')] @ [ValetudoFullCleanupTimerAction]
           = started @ rest
       \<and> [Run (ValetudoFanSpeedControlTimerPreAction (Some ''max''))] = map Run started
       \<and> (1::nat) = deviceAfter fanFailingRun started 0
       \<and> (\<exists>before h. started = before @ [h] \<and> allSucceed fanFailingRun before 0
             \<and> fst (fanFailingRun h (deviceAfter fanFailingRun before 0))
                 = Some (OperationError ''fan speed''))"
    by (simp add: world0_def)
  then have "\<exists>started rest.
         [ValetudoFanSpeedControlTimerPreAction (Some ''max''),
          ValetudoWaterUsageControlTimerPreAction (Some ''low'')] @ [ValetudoFullCleanupTimerAction]
           = started @ rest
       \<and> [Run (ValetudoFanSpeedControlTimerPreAction (Some ''max''))] = map Run started
       \<and> (1::nat) = deviceAfter fanFailingRun started 0
       \<and> (\<exists>before h. started = before @ [h] \<and> allSucceed fanFailingRun before 0
             \<and> fst (fanFailingRun h (deviceAfter fanFailingRun before 0))
                 = Some (OperationError ''fan speed''))"
    by (intro exI)
  with t2_valid t2_fan_fails show ?thesis
    by (intro conjI) simp_all
qed

subsection \<open>Timers that do not pass validation\<close>

lemma bogus_example:
  "executeTimer countingRun valetudoConsts
       (timerT2\<lparr>pre_actions := Some [fanMax, bogusPre, waterLow]\<rparr>) world0 =
     (Inr (),
      \<lparr>device = 0,
       events = [LoggerWarn ''Error while executing timer t2''
                   ''Couldn't find timer pre_action for type: bogus''], pending = []\<rparr>)"
  by code_simp

text \<open>
  Claim C4. When the list of pre-actions has an entry whose type is none of the three
  known tags, whatever the other entries and the action are, \<open>executeTimer\<close> starts no device
  operation: the device state is unchanged and none of the events it adds is a \<open>Run\<close>.
\<close>

theorem invalid_pre_action_runs_nothing:
  assumes "pre_actions td = Some ds" and "d \<in> set ds"
    and "pre_type d \<noteq> Some (FAN_SPEED_CONTROL C)"
    and "pre_type d \<noteq> Some (WATER_USAGE_CONTROL C)"
    and "pre_type d \<noteq> Some (OPERATION_MODE_CONTROL C)"
  shows "device (snd (executeTimer run C td w)) = device w
       \<and> (\<exists>evs. events (snd (executeTimer run C td w)) = events w @ evs \<and> filter isRun evs = [])"
proof (cases "resolveAction C (action td)")
  case None
  then show ?thesis
    by (cases "action td") (simp_all add: executeTimer_def log_event_def)
next
  case (Some act)
  have "resolvePreAction C d = Inr None"
    using assms(3-5) by (simp add: resolvePreAction_unrecognised)
  from collectPreActions_unrecognised [OF assms(2) this, of "timer_id td" "[]" w]
  show ?thesis
  proof
    assume "\<exists>e. collectPreActions C (timer_id td) ds [] w = (Inl e, w)"
    with Some assms(1) show ?thesis
      by (auto simp: executeTimer_def)
  next
    assume "\<exists>a b. collectPreActions C (timer_id td) ds [] w = (Inr None, log_event (LoggerWarn a b) w)"
    with Some assms(1) show ?thesis
      by (auto simp: executeTimer_def log_event_def)
  qed
qed

theorem invalid_pre_action_runs_nothing_witness:
  "bogusPre \<in> set [fanMax, bogusPre, waterLow]
   \<and> pre_type bogusPre \<noteq> Some (FAN_SPEED_CONTROL valetudoConsts)
   \<and> pre_type bogusPre \<noteq> Some (WATER_USAGE_CONTROL valetudoConsts)
   \<and> pre_type bogusPre \<noteq> Some (OPERATION_MODE_CONTROL valetudoConsts)
   \<and> device (snd (executeTimer countingRun valetudoConsts
         (timerT2\<lparr>pre_actions := Some [fanMax, bogusPre, waterLow]\<rparr>) world0)) = device world0
   \<and> (\<exists>evs. events (snd (executeTimer countingRun valetudoConsts
         (timerT2\<lparr>pre_actions := Some [fanMax, bogusPre, waterLow]\<rparr>) world0)) = events world0 @ evs
        \<and> filter isRun evs = [])
   \<and> executeTimer countingRun valetudoConsts
       (timerT2\<lparr>pre_actions := Some [fanMax, bogusPre, waterLow]\<rparr>) world0 =
     (Inr (),
      \<lparr>device = 0,
       events = [LoggerWarn ''Error while executing timer t2''
                   ''Couldn't find timer pre_action for type: bogus''], pending = []\<rparr>)"
proof -
  have h: "pre_actions (timerT2\<lparr>pre_actions := Some [fanMax, bogusPre, waterLow]\<rparr>)
        = Some [fanMax, bogusPre, waterLow]"
      "bogusPre \<in> set [fanMax, bogusPre, waterLow]"
      "pre_type bogusPre \<noteq> Some (FAN_SPEED_CONTROL valetudoConsts)"
      "pre_type bogusPre \<noteq> Some (WATER_USAGE_CONTROL valetudoConsts)"
      "pre_type bogusPre \<noteq> Some (OPERATION_MODE_CONTROL valetudoConsts)"
    by (simp_all add: bogusPre_def valetudoConsts_def)
  from invalid_pre_action_runs_nothing [OF h, of countingRun world0] h(2-5) bogus_example
  show ?thesis
    by (intro conjI) simp_all
qed

text \<open>
  Claim C8 says that \<open>executeTimer\<close> records a warning and gives up when the action tag
  is unrecognised or the action is absent. For an absent action the switch sees
  \<open>undefined\<close> through \<open>action?.type\<close>, but the message of the warning is built from
  \<open>timerDefinition.action.type\<close>: that read throws before \<open>Logger.warn\<close> is called. No
  warning is recorded, and the promise is rejected with the \<open>TypeError\<close>.
\<close>

theorem absent_action_throws:
  "executeTimer run C (td\<lparr>action := None\<rparr>) w =
     (Inl (TypeError ''Cannot read properties of undefined (reading type)''), w)"
  by (simp add: executeTimer_def resolveAction_def)

text \<open>For an action that is present with an unrecognised tag, the warning is recorded
  and nothing runs.\<close>

lemma unrecognised_action_warns:
  assumes "action td = Some a" and "action_type a \<noteq> Some (FULL_CLEANUP C)"
    and "action_type a \<noteq> Some (SEGMENT_CLEANUP C)"
  shows "executeTimer run C td w =
     (Inr (),
      log_event (LoggerWarn (''Error while executing timer '' @ timer_id td)
        (''Couldn't find timer action for type: '' @ tag_string (action_type a))) w)"
  using assms by (simp add: executeTimer_def resolveAction_def)

lemma t1_absent_example:
  "executeTimer countingRun valetudoConsts (timerT1\<lparr>pre_actions := None\<rparr>) world0 =
     (Inr (), \<lparr>device = 1, events = [Run ValetudoFullCleanupTimerAction], pending = []\<rparr>)"
  by code_simp

text \<open>
  Claim C10. A timer whose \<open>pre_actions\<close> is absent or not an array is executed exactly
  as the same timer with an empty list of pre-actions. When its action resolves to a
  handler, the only event added is the start of that operation (no warning, no error of
  the pipeline's own, no pre-action), and the promise settles as the operation does.
\<close>

theorem absent_pre_actions_as_empty:
  assumes "pre_actions td = None"
  shows "executeTimer run C td w = executeTimer run C (td\<lparr>pre_actions := Some []\<rparr>) w
       \<and> (\<forall>act. resolveAction C (action td) = Some act \<longrightarrow>
             events (snd (executeTimer run C td w)) = events w @ [Run act]
           \<and> device (snd (executeTimer run C td w)) = snd (run act (device w))
           \<and> fst (executeTimer run C td w) =
               (case fst (run act (device w)) of None \<Rightarrow> Inr () | Some e \<Rightarrow> Inl e))"
proof -
  have eq: "executeTimer run C td w = executeTimer run C (td\<lparr>pre_actions := Some []\<rparr>) w"
    using assms by (simp add: executeTimer_def split: option.splits)
  have "executeTimer run C td w = await_run run act w" if "resolveAction C (action td) = Some act" for act
    using that assms by (simp add: executeTimer_def)
  then show ?thesis
    using eq by (simp add: await_run_cases)
qed

theorem absent_pre_actions_as_empty_witness:
  "pre_actions (timerT1\<lparr>pre_actions := None\<rparr>) = None
   \<and> resolveAction valetudoConsts (action (timerT1\<lparr>pre_actions := None\<rparr>))
       = Some ValetudoFullCleanupTimerAction
   \<and> executeTimer countingRun valetudoConsts (timerT1\<lparr>pre_actions := None\<rparr>) world0 =
       executeTimer countingRun valetudoConsts
         (timerT1\<lparr>pre_actions := None\<rparr>\<lparr>pre_actions := Some []\<rparr>) world0
   \<and> events (snd (executeTimer countingRun valetudoConsts (timerT1\<lparr>pre_actions := None\<rparr>) world0))
       = events world0 @ [Run ValetudoFullCleanupTimerAction]
   \<and> executeTimer countingRun valetudoConsts (timerT1\<lparr>pre_actions := None\<rparr>) world0 =
       (Inr (), \<lparr>device = 1, events = [Run ValetudoFullCleanupTimerAction], pending = []\<rparr>)"
proof -
  have h: "pre_actions (timerT1\<lparr>pre_actions := None\<rparr>) = None"
    by simp
  have a: "resolveAction valetudoConsts (action (timerT1\<lparr>pre_actions := None\<rparr>))
       = Some ValetudoFullCleanupTimerAction"
    by (simp add: timerT1_def fullCleanup_def valetudoConsts_def resolveAction_def)
  note th = absent_pre_actions_as_empty [OF h, of countingRun valetudoConsts world0]
  from th have 1: "executeTimer countingRun valetudoConsts (timerT1\<lparr>pre_actions := None\<rparr>) world0 =
       executeTimer countingRun valetudoConsts
         (timerT1\<lparr>pre_actions := None\<rparr>\<lparr>pre_actions := Some []\<rparr>) world0"
    by (rule conjunct1)
  from th a have 2: "events (snd (executeTimer countingRun valetudoConsts
        (timerT1\<lparr>pre_actions := None\<rparr>) world0))
       = events world0 @ [Run ValetudoFullCleanupTimerAction]"
    by blast
  from h a 1 2 t1_absent_example show ?thesis
    by (intro conjI)
qed

section \<open>Matching and dispatch\<close>

lemma collectPreActions_result:
  "(\<exists>e. collectPreActions C tid ds acc w = (Inl e, w))
   \<or> (\<exists>a b. collectPreActions C tid ds acc w = (Inr None, log_event (LoggerWarn a b) w))
   \<or> (\<exists>hs. collectPreActions C tid ds acc w = (Inr (Some hs), w))"
proof (induction ds arbitrary: acc)
  case Nil
  show ?case by simp
next
  case (Cons x xs)
  show ?case
  proof (cases "resolvePreAction C x")
    case (Inl e)
    then show ?thesis by simp
  next
    case (Inr r)
    show ?thesis
    proof (cases r)
      case None
      with Inr show ?thesis by auto
    next
      case (Some h)
      with Inr Cons.IH [of "acc @ [h]"] show ?thesis
        by simp
    qed
  qed
qed

text \<open>The call and the whole body side by side: the call has done what the body does
  before its first \<open>await\<close>, and what it leaves pending is the rest of the body.\<close>

lemma call_and_body:
  "(\<exists>e. call_executeTimer run C td w = w\<lparr>pending := pending w @ [Rejected (timer_id td) e]\<rparr>
        \<and> executeTimer run C td w = (Inl e, w))
   \<or> (\<exists>a b. call_executeTimer run C td w = log_event (LoggerWarn a b) w
        \<and> executeTimer run C td w = (Inr (), log_event (LoggerWarn a b) w))
   \<or> (\<exists>h rest. call_executeTimer run C td w = suspend_at run (timer_id td) h rest w
        \<and> executeTimer run C td w = runPreActions run (h # rest) w)"
proof (cases "resolveAction C (action td)")
  case None
  then show ?thesis
    by (cases "action td") (auto simp: call_executeTimer_def executeTimer_def)
next
  case (Some act)
  define cr where "cr = (case pre_actions td of
                   None \<Rightarrow> (Inr (Some []), w)
                 | Some ds \<Rightarrow> collectPreActions C (timer_id td) ds [] w)"
  have call: "call_executeTimer run C td w =
      (case cr of
         (Inl e, w1) \<Rightarrow> w1\<lparr>pending := pending w1 @ [Rejected (timer_id td) e]\<rparr>
       | (Inr None, w1) \<Rightarrow> w1
       | (Inr (Some preActions), w1) \<Rightarrow>
           (case preActions of
              [] \<Rightarrow> suspend_at run (timer_id td) act [] w1
            | preAction # others \<Rightarrow> suspend_at run (timer_id td) preAction (others @ [act]) w1))"
    using Some by (simp add: call_executeTimer_def cr_def)
  have body: "executeTimer run C td w =
      (case cr of
         (Inl e, w1) \<Rightarrow> (Inl e, w1)
       | (Inr None, w1) \<Rightarrow> (Inr (), w1)
       | (Inr (Some preActions), w1) \<Rightarrow> runPreActions run (preActions @ [act]) w1)"
    using Some
    by (simp add: executeTimer_def cr_def runPreActions_append
        split: prod.splits sum.splits option.splits)
  have "(\<exists>e. cr = (Inl e, w)) \<or> (\<exists>a b. cr = (Inr None, log_event (LoggerWarn a b) w))
      \<or> (\<exists>hs. cr = (Inr (Some hs), w))"
    using collectPreActions_result [of C "timer_id td" _ "[]" w]
    by (cases "pre_actions td") (simp_all add: cr_def)
  then consider e where "cr = (Inl e, w)"
    | a b where "cr = (Inr None, log_event (LoggerWarn a b) w)"
    | hs where "cr = (Inr (Some hs), w)"
    by blast
  then show ?thesis
  proof cases
    case 1
    then show ?thesis
      by (simp add: call body)
  next
    case 2
    then show ?thesis
      by (auto simp: call body)
  next
    case 3
    show ?thesis
    proof (cases hs)
      case Nil
      with 3 have "call_executeTimer run C td w = suspend_at run (timer_id td) act [] w
          \<and> executeTimer run C td w = runPreActions run (act # []) w"
        by (simp add: call body)
      then show ?thesis
        by blast
    next
      case (Cons p others)
      with 3 have "call_executeTimer run C td w = suspend_at run (timer_id td) p (others @ [act]) w
          \<and> executeTimer run C td w = runPreActions run (p # (others @ [act])) w"
        by (simp add: call body)
      then show ?thesis
        by blast
    qed
  qed
qed

lemma suspend_at_fields:
  "device (suspend_at run tid h rest w) = snd (run h (device w))
   \<and> events (suspend_at run tid h rest w) = events w @ [Run h]
   \<and> pending (suspend_at run tid h rest w) = pending w @ [Awaiting tid (fst (run h (device w))) rest]"
  by (simp add: suspend_at_def split: prod.splits)

lemma call_executeTimer_fields:
  "(\<exists>evs. events (call_executeTimer run C td w) = events w @ evs
        \<and> filter isLoggerInfo evs = [] \<and> filter isLoggerError evs = [])
   \<and> (\<exists>new. pending (call_executeTimer run C td w) = pending w @ new \<and> length new \<le> 1)"
proof -
  from call_and_body [of run C td w]
  consider e where "call_executeTimer run C td w = w\<lparr>pending := pending w @ [Rejected (timer_id td) e]\<rparr>"
    | a b where "call_executeTimer run C td w = log_event (LoggerWarn a b) w"
    | h rest where "call_executeTimer run C td w = suspend_at run (timer_id td) h rest w"
    by blast
  then show ?thesis
  proof cases
    case 1
    then show ?thesis
      by simp
  next
    case 2
    then show ?thesis
      by (simp add: log_event_def)
  next
    case 3
    then show ?thesis
      by (simp add: suspend_at_fields)
  qed
qed

lemma dispatchTimer_events:
  "\<exists>evs. events (dispatchTimer run C td w) =
       events w @ LoggerInfo (''Executing timer '' @ timer_id td) # evs
     \<and> filter isLoggerInfo evs = []"
proof -
  define w0 where "w0 = log_event (LoggerInfo (''Executing timer '' @ timer_id td)) w"
  from call_executeTimer_fields [of run C td w0] obtain evs where
    "events (call_executeTimer run C td w0) = events w0 @ evs" "filter isLoggerInfo evs = []"
    by blast
  then have "events (dispatchTimer run C td w) =
       events w @ LoggerInfo (''Executing timer '' @ timer_id td) # evs
     \<and> filter isLoggerInfo evs = []"
    by (simp add: dispatchTimer_def w0_def [symmetric]) (simp add: w0_def log_event_def)
  then show ?thesis
    by blast
qed

lemma dispatchTimer_changes: "dispatchTimer run C td w \<noteq> w"
proof
  assume "dispatchTimer run C td w = w"
  then have "events (dispatchTimer run C td w) = events w"
    by simp
  with dispatchTimer_events [of run C td w] show False
    by auto
qed

lemma timerMatches_iff:
  "timerMatches td (checkTime_of t) \<longleftrightarrow>
     enabled td \<and> getUTCDay t \<in> set (dow td) \<and> hour td = getUTCHours t \<and> minute td = getUTCMinutes t"
  by (simp add: timerMatches_def checkTime_of_def)

lemma fold_forEachCallback:
  "fold (forEachCallback run C ct) tds w =
     fold (dispatchTimer run C) (filter (\<lambda>td. timerMatches td ct) tds) w"
  by (induction tds arbitrary: w) (simp_all add: forEachCallback_def)



lemma utc_example:
  "getUTCDay 397800500 = 1 \<and> getUTCHours 397800500 = 14 \<and> getUTCMinutes 397800500 = 30
   \<and> getUTCMinutes 397860500 = 31"
  by (simp add: getUTCDay_def getUTCHours_def getUTCMinutes_def)

lemma dispatch_t1_example:
  "dispatchTimer countingRun valetudoConsts timerT1 world0 =
     \<lparr>device = 1, events = [LoggerInfo ''Executing timer t1'', Run ValetudoFullCleanupTimerAction],
        pending = [Awaiting ''t1'' None []]\<rparr>"
  by code_simp

text \<open>
  Claim C5. At an evaluated instant \<open>t\<close>, with the weekday, hour and minute that
  \<open>getUTCDay\<close>, \<open>getUTCHours\<close> and \<open>getUTCMinutes\<close> derive from it, a timer of the store
  is dispatched if and only if it is enabled, its \<open>dow\<close> contains the weekday and its
  \<open>hour\<close> and \<open>minute\<close> equal the derived ones. A dispatch always shows (it logs
  \<open>Executing timer\<close> with the id first), so it is the case in which the callback changes
  the world; the evaluation of the minute is the dispatch of the matching timers, in the
  order of the store. A disabled timer is never dispatched.
\<close>

theorem dispatch_iff_match:
  "(forEachCallback run C (checkTime_of t) td w \<noteq> w \<longleftrightarrow>
      enabled td \<and> getUTCDay t \<in> set (dow td) \<and> hour td = getUTCHours t
      \<and> minute td = getUTCMinutes t)
   \<and> forEachCallback run C (checkTime_of t) td w =
       (if enabled td \<and> getUTCDay t \<in> set (dow td) \<and> hour td = getUTCHours t
           \<and> minute td = getUTCMinutes t
        then dispatchTimer run C td w else w)
   \<and> (\<exists>evs. events (dispatchTimer run C td w) =
         events w @ LoggerInfo (''Executing timer '' @ timer_id td) # evs)
   \<and> evaluateMinute run C tms t w =
       fold (dispatchTimer run C)
         (filter (\<lambda>td. enabled td \<and> getUTCDay t \<in> set (dow td) \<and> hour td = getUTCHours t
                    \<and> minute td = getUTCMinutes t) (map snd tms)) w
   \<and> (\<not> enabled td \<longrightarrow> forEachCallback run C (checkTime_of t) td w = w)"
proof -
  have a: "forEachCallback run C (checkTime_of t) td w =
       (if enabled td \<and> getUTCDay t \<in> set (dow td) \<and> hour td = getUTCHours t
           \<and> minute td = getUTCMinutes t
        then dispatchTimer run C td w else w)"
    by (simp add: forEachCallback_def timerMatches_iff)
  have b: "forEachCallback run C (checkTime_of t) td w \<noteq> w \<longleftrightarrow>
      enabled td \<and> getUTCDay t \<in> set (dow td) \<and> hour td = getUTCHours t
      \<and> minute td = getUTCMinutes t"
    unfolding a using dispatchTimer_changes [of run C td w] by simp
  have c: "\<exists>evs. events (dispatchTimer run C td w) =
         events w @ LoggerInfo (''Executing timer '' @ timer_id td) # evs"
    using dispatchTimer_events [of run C td w] by blast
  have d: "evaluateMinute run C tms t w =
       fold (dispatchTimer run C)
         (filter (\<lambda>td. enabled td \<and> getUTCDay t \<in> set (dow td) \<and> hour td = getUTCHours t
                    \<and> minute td = getUTCMinutes t) (map snd tms)) w"
    by (simp add: evaluateMinute_def fold_forEachCallback Object_values_def timerMatches_iff)
  have e: "\<not> enabled td \<longrightarrow> forEachCallback run C (checkTime_of t) td w = w"
    by (simp add: a)
  from a b c d e show ?thesis
    by (intro conjI)
qed

theorem dispatch_iff_match_witness:
  "getUTCDay 397800500 = 1 \<and> getUTCHours 397800500 = 14 \<and> getUTCMinutes 397800500 = 30
   \<and> forEachCallback countingRun valetudoConsts (checkTime_of 397800500) timerT1 world0 =
       \<lparr>device = 1, events = [LoggerInfo ''Executing timer t1'', Run ValetudoFullCleanupTimerAction],
        pending = [Awaiting ''t1'' None []]\<rparr>
   \<and> forEachCallback countingRun valetudoConsts (checkTime_of 397800500)
         (timerT1\<lparr>enabled := False\<rparr>) world0 = world0
   \<and> forEachCallback countingRun valetudoConsts (checkTime_of 397860500) timerT1 world0 = world0"
proof -
  have t1: "enabled timerT1" "dow timerT1 = [1]" "hour timerT1 = 14" "minute timerT1 = 30"
    by (simp_all add: timerT1_def)
  from dispatch_iff_match [of countingRun valetudoConsts 397800500 timerT1 world0]
  have "forEachCallback countingRun valetudoConsts (checkTime_of 397800500) timerT1 world0 =
       dispatchTimer countingRun valetudoConsts timerT1 world0"
    by (simp add: utc_example t1)
  then have a: "forEachCallback countingRun valetudoConsts (checkTime_of 397800500) timerT1 world0 =
       \<lparr>device = 1, events = [LoggerInfo ''Executing timer t1'', Run ValetudoFullCleanupTimerAction],
        pending = [Awaiting ''t1'' None []]\<rparr>"
    by (simp add: dispatch_t1_example)
  from dispatch_iff_match [of countingRun valetudoConsts 397800500 "timerT1\<lparr>enabled := False\<rparr>" world0]
  have b: "forEachCallback countingRun valetudoConsts (checkTime_of 397800500)
         (timerT1\<lparr>enabled := False\<rparr>) world0 = world0"
    by simp
  from dispatch_iff_match [of countingRun valetudoConsts 397860500 timerT1 world0]
  have c: "forEachCallback countingRun valetudoConsts (checkTime_of 397860500) timerT1 world0 = world0"
    by (simp add: utc_example t1)
  from utc_example a b c show ?thesis
    by simp
qed

section \<open>Suspended pipelines and the event loop\<close>







section \<open>Failures stay inside the pipeline of their timer\<close>








end
